theory Spec2Isabelle
  imports Complex_Main "HOL-Library.Sublist" "HOL-Library.AList"
begin

section \<open>Strings\<close>

text \<open>
  A JavaScript string is modelled as a \<^typ>\<open>string\<close>: one \<^typ>\<open>char\<close> per code unit,
  for code units below 256. The character classes the code depends on (\<open>\s\<close> of the regular
  expressions, \<open>trim\<close>, \<open>toLowerCase\<close>) are written out for that range.
\<close>

function split_from :: "string \<Rightarrow> string \<Rightarrow> string \<Rightarrow> string list" where
  "split_from sep cur [] = [cur]"
| "split_from sep cur (c # cs) =
     (if sep \<noteq> [] \<and> prefix sep (c # cs)
      then cur # split_from sep [] (drop (length sep) (c # cs))
      else split_from sep (cur @ [c]) cs)"
  by pat_completeness auto
termination
  by (relation "measure (\<lambda>(sep, cur, s). length s)") (auto simp: neq_Nil_conv)

text \<open>\<open>s.split(sep)\<close> for a string separator: the pieces between the successive leftmost
  occurrences of \<open>sep\<close>; an empty separator splits into code units.\<close>

definition js_split :: "string \<Rightarrow> string \<Rightarrow> string list" where
  "js_split sep s = (if sep = [] then map (\<lambda>c. [c]) s else split_from sep [] s)"

fun occurs :: "string \<Rightarrow> string \<Rightarrow> bool" where
  "occurs sep [] = (sep = [])"
| "occurs sep (c # cs) = (prefix sep (c # cs) \<or> occurs sep cs)"

definition is_space :: "char \<Rightarrow> bool" where
  \<comment> \<open>\<open>\s\<close> and the characters \<open>trim\<close> removes, among the code units below 256:
      TAB, LF, VT, FF, CR, SPACE and NO-BREAK SPACE.\<close>
  "is_space c = ((of_char c :: nat) \<in> {9, 10, 11, 12, 13, 32, 160})"

definition lower_char :: "char \<Rightarrow> char" where
  \<comment> \<open>\<open>A\<close>..\<open>Z\<close> and the Latin-1 capitals \<open>0xC0\<close>..\<open>0xDE\<close> (without \<open>0xD7\<close>) move up by 32.\<close>
  "lower_char c =
     (let n = (of_char c :: nat)
      in if (65 \<le> n \<and> n \<le> 90) \<or> (192 \<le> n \<and> n \<le> 222 \<and> n \<noteq> 215)
         then char_of (n + 32) else c)"

definition toLowerCase :: "string \<Rightarrow> string" where
  "toLowerCase s = map lower_char s"

definition js_trim :: "string \<Rightarrow> string" where
  "js_trim s = rev (dropWhile is_space (rev (dropWhile is_space s)))"

definition startsWith :: "string \<Rightarrow> string \<Rightarrow> bool" where
  "startsWith s p = prefix p s"

definition endsWith :: "string \<Rightarrow> string \<Rightarrow> bool" where
  "endsWith s p = suffix p s"

text \<open>\<open>s.replace(pat, rep)\<close> with a string pattern: the first occurrence only.\<close>

fun replace_first :: "string \<Rightarrow> string \<Rightarrow> string \<Rightarrow> string" where
  "replace_first pat rep [] = (if pat = [] then rep else [])"
| "replace_first pat rep (c # cs) =
     (if prefix pat (c # cs) then rep @ drop (length pat) (c # cs)
      else c # replace_first pat rep cs)"

text \<open>The decimal digits of a natural number, as a template literal prints it.\<close>

definition digit_char :: "nat \<Rightarrow> char" where
  \<comment> \<open>for \<open>d\<close> below 16\<close>
  "digit_char d = ''0123456789abcdef'' ! d"

fun decimal :: "nat \<Rightarrow> string" where
  "decimal n = (if 10 \<le> n then decimal (n div 10) @ [digit_char (n mod 10)] else [digit_char n])"

declare decimal.simps [simp del]

section \<open>Compound selector values\<close>

record ProjectInfo =
  p_projectId :: string
  p_projectName :: string
  p_specUrl :: string
  p_editorBaseUrl :: string

text \<open>The \<open>value\<close> of a project option in \<open>fetchProjects\<close>.\<close>

definition project_value :: "ProjectInfo \<Rightarrow> string" where
  "project_value project =
     p_projectId project @ ''::'' @ p_specUrl project @ ''::'' @ p_editorBaseUrl project
       @ ''::'' @ p_projectName project"

definition ends_with_colon :: "string \<Rightarrow> bool" where
  "ends_with_colon s = (s \<noteq> [] \<and> last s = CHR '':'')"

section \<open>JavaScript values\<close>

text \<open>
  The values the nodes handle are parsed JSON, and \<open>undefined\<close>. An object is the list of its
  own enumerable properties in enumeration order; property names are unique (\<open>unique_names\<close>).
  Numbers are the rationals that the finite doubles are. The engine enumerates integer-like
  property names first; the model keeps the order in which properties are created, and no
  property below depends on the difference.
\<close>

datatype jsval =
    JUndefined
  | JNull
  | JBool bool
  | JNum rat
  | JStr string
  | JArr "jsval list"
  | JObj "(string \<times> jsval) list"

fun unique_names :: "jsval \<Rightarrow> bool" where
  "unique_names (JArr xs) = (\<forall>x \<in> set xs. unique_names x)"
| "unique_names (JObj kvs) = (distinct (map fst kvs) \<and> (\<forall>v \<in> snd ` set kvs. unique_names v))"
| "unique_names _ = True"

datatype error =
    TypeError
  | SyntaxError
  | HttpError
  | OperationError string
  | ExecutionFailed error
  | RangeError
  | NotModelled

text \<open>
  \<open>TypeError\<close> and \<open>SyntaxError\<close> are the engine's exceptions, \<open>HttpError\<close> a failure of the
  host's request helper, \<open>OperationError m\<close> a \<open>NodeOperationError\<close> with message \<open>m\<close>, and
  \<open>ExecutionFailed e\<close> the \<open>NodeOperationError\<close> with message
  \<open>Blueprint execution failed: \<close> followed by the message of \<open>e\<close>. \<open>RangeError\<close> is the
  engine's stack overflow, raised when a recursion is deeper than the engine allows (the
  depth is a parameter of the recursive function of the model). \<open>NotModelled\<close> marks a
  step that leaves parsed JSON (a member inherited from a built-in prototype, a built-in
  applied to a value outside its declared type): the model says nothing about what follows.
\<close>

fun truthy :: "jsval \<Rightarrow> bool" where
  "truthy JUndefined = False"
| "truthy JNull = False"
| "truthy (JBool b) = b"
| "truthy (JNum r) = (r \<noteq> 0)"
| "truthy (JStr s) = (s \<noteq> [])"
| "truthy (JArr xs) = True"
| "truthy (JObj kvs) = True"

text \<open>\<open>a || b\<close>.\<close>

definition js_or :: "jsval \<Rightarrow> jsval \<Rightarrow> jsval" where
  "js_or a b = (if truthy a then a else b)"

text \<open>
  \<open>v.k\<close> for a property name \<open>k\<close> written in the code. None of those names is a member of a
  built-in prototype, so the access gives the own property or \<open>undefined\<close>, and throws on
  \<open>undefined\<close> and \<open>null\<close>.
\<close>

fun get_prop :: "jsval \<Rightarrow> string \<Rightarrow> error + jsval" where
  "get_prop JUndefined k = Inl TypeError"
| "get_prop JNull k = Inl TypeError"
| "get_prop (JObj kvs) k = Inr (case map_of kvs k of Some v \<Rightarrow> v | None \<Rightarrow> JUndefined)"
| "get_prop v k = Inr JUndefined"

text \<open>\<open>v?.k\<close>.\<close>

fun get_prop_opt :: "jsval \<Rightarrow> string \<Rightarrow> jsval" where
  "get_prop_opt (JObj kvs) k = (case map_of kvs k of Some v \<Rightarrow> v | None \<Rightarrow> JUndefined)"
| "get_prop_opt v k = JUndefined"

definition Object_prototype_members :: "string list" where
  "Object_prototype_members =
     [''constructor'', ''__proto__'', ''hasOwnProperty'', ''isPrototypeOf'',
      ''propertyIsEnumerable'', ''toLocaleString'', ''toString'', ''valueOf'',
      ''__defineGetter__'', ''__defineSetter__'', ''__lookupGetter__'', ''__lookupSetter__'']"

text \<open>
  \<open>v[k]\<close> for a computed name \<open>k\<close>: an own property of an object, \<open>undefined\<close> for a name
  the object does not have, a \<open>TypeError\<close> on \<open>undefined\<close> and \<open>null\<close>. Members inherited from
  \<open>Object.prototype\<close> and the members of arrays, strings, numbers and booleans are not modelled.
\<close>

fun get_computed :: "jsval \<Rightarrow> string \<Rightarrow> error + jsval" where
  "get_computed JUndefined k = Inl TypeError"
| "get_computed JNull k = Inl TypeError"
| "get_computed (JObj kvs) k =
     (case map_of kvs k of
        Some v \<Rightarrow> Inr v
      | None \<Rightarrow> if k \<in> set Object_prototype_members then Inl NotModelled else Inr JUndefined)"
| "get_computed v k = Inl NotModelled"

text \<open>
  \<open>obj[k] = v\<close> on an object created by a literal: a new name is appended, an existing one
  keeps its place, and the name \<open>__proto__\<close> reaches the setter of \<open>Object.prototype\<close>, which
  creates no own property.
\<close>

definition set_prop :: "(string \<times> 'a) list \<Rightarrow> string \<Rightarrow> 'a \<Rightarrow> (string \<times> 'a) list" where
  "set_prop obj k v = (if k = ''__proto__'' then obj else AList.update k v obj)"

section \<open>Schema resolution\<close>

fun walk :: "jsval \<Rightarrow> string list \<Rightarrow> error + jsval" where
  "walk resolved [] = Inr resolved"
| "walk resolved (part # refPath) =
     (case get_computed resolved part of
        Inl e \<Rightarrow> Inl e
      | Inr v \<Rightarrow> walk v refPath)"

definition resolveSchema :: "jsval \<Rightarrow> jsval \<Rightarrow> error + jsval" where
  "resolveSchema schema spec =
     (case get_prop schema ''$ref'' of
        Inl e \<Rightarrow> Inl e
      | Inr ref \<Rightarrow>
          if truthy ref
          then (case ref of
                  JStr r \<Rightarrow> walk spec (js_split ''/'' (replace_first ''#/'' [] r))
                | _ \<Rightarrow> Inl TypeError)
          else Inr schema)"

section \<open>Tool names\<close>

function replace_space_runs :: "string \<Rightarrow> string" where
  "replace_space_runs [] = []"
| "replace_space_runs (c # cs) =
     (if is_space c then CHR ''_'' # replace_space_runs (dropWhile is_space cs)
      else c # replace_space_runs cs)"
  by pat_completeness auto
termination
  by (relation "measure length") (auto simp: length_dropWhile_le less_Suc_eq_le)

definition name_char :: "char \<Rightarrow> bool" where
  \<comment> \<open>the class \<open>[a-z0-9_-]\<close>\<close>
  "name_char c =
     (let n = (of_char c :: nat)
      in (97 \<le> n \<and> n \<le> 122) \<or> (48 \<le> n \<and> n \<le> 57) \<or> c = CHR ''_'' \<or> c = CHR ''-'')"

definition sanitizeToolName :: "string \<Rightarrow> string" where
  "sanitizeToolName name =
     (let s = take 64 (filter name_char (replace_space_runs (toLowerCase name)))
      in if s = [] then ''leapter_tool'' else s)"

fun dedup_loop :: "(string \<rightharpoonup> nat) \<Rightarrow> string list \<Rightarrow> string list \<Rightarrow> string list" where
  "dedup_loop counts result [] = result"
| "dedup_loop counts result (name # names) =
     (let count = (case counts name of Some c \<Rightarrow> c | None \<Rightarrow> 0)
      in dedup_loop (counts(name \<mapsto> count + 1))
           (if count = 0 then result @ [name]
            else result @ [take 64 (name @ ''_'' @ decimal count)])
           names)"

definition deduplicateToolNames :: "string list \<Rightarrow> string list" where
  "deduplicateToolNames names = dedup_loop Map.empty [] names"

section \<open>Visual-mode values\<close>

text \<open>\<open>JSON.parse\<close> is the engine's; the model takes it as a parameter \<open>parse\<close> that returns
  the value or \<open>Inl SyntaxError\<close>.\<close>

definition try_catch :: "error + 'a \<Rightarrow> (error \<Rightarrow> error + 'a) \<Rightarrow> error + 'a" where
  "try_catch body handler = (case body of Inl e \<Rightarrow> handler e | Inr v \<Rightarrow> Inr v)"

definition tryParseJson :: "(string \<Rightarrow> error + jsval) \<Rightarrow> jsval \<Rightarrow> error + jsval" where
  "tryParseJson parse v =
     (case v of
        JStr s \<Rightarrow>
          (let trimmed = js_trim s
           in if (startsWith trimmed ''['' \<and> endsWith trimmed '']'')
                 \<or> (startsWith trimmed ''{'' \<and> endsWith trimmed ''}'')
              then try_catch (parse trimmed) (\<lambda>e. Inr v)
              else Inr v)
      | _ \<Rightarrow> Inr v)"

section \<open>Requests and responses\<close>

text \<open>\<open>xs[i]\<close> on the result of \<open>split\<close>: \<open>None\<close> is \<open>undefined\<close>.\<close>

definition nth_opt :: "'a list \<Rightarrow> nat \<Rightarrow> 'a option" where
  "nth_opt xs i = (if i < length xs then Some (xs ! i) else None)"

text \<open>A string or \<open>undefined\<close> inside a template literal.\<close>

definition template :: "string option \<Rightarrow> string" where
  "template v = (case v of Some s \<Rightarrow> s | None \<Rightarrow> ''undefined'')"

definition opt_val :: "string option \<Rightarrow> jsval" where
  "opt_val v = (case v of Some s \<Rightarrow> JStr s | None \<Rightarrow> JUndefined)"

text \<open>\<open>typeof v === 'object' && v !== null\<close>.\<close>

fun is_object :: "jsval \<Rightarrow> bool" where
  "is_object (JObj kvs) = True"
| "is_object (JArr xs) = True"
| "is_object v = False"

text \<open>The own enumerable properties \<open>Object.entries\<close> lists and a spread copies.\<close>

definition indexed :: "jsval list \<Rightarrow> (string \<times> jsval) list" where
  "indexed xs = zip (map decimal [0..<length xs]) xs"

fun own_entries :: "jsval \<Rightarrow> (string \<times> jsval) list" where
  "own_entries (JObj kvs) = kvs"
| "own_entries (JArr xs) = indexed xs"
| "own_entries (JStr s) = indexed (map (\<lambda>c. JStr [c]) s)"
| "own_entries v = []"

text \<open>\<open>Object.entries(v)\<close> throws on \<open>undefined\<close> and \<open>null\<close>.\<close>

fun object_entries :: "jsval \<Rightarrow> error + (string \<times> jsval) list" where
  "object_entries JUndefined = Inl TypeError"
| "object_entries JNull = Inl TypeError"
| "object_entries v = Inr (own_entries v)"

text \<open>\<open>{...obj, ...src}\<close>: the properties of \<open>src\<close> are defined on the object in order; a name
  already there keeps its place and takes the new value.\<close>

definition spread :: "(string \<times> jsval) list \<Rightarrow> jsval \<Rightarrow> (string \<times> jsval) list" where
  "spread obj src = fold (\<lambda>(k, v) acc. AList.update k v acc) (own_entries src) obj"

text \<open>The first match of \<open>/\/models\/([^/]+)\/runs/\<close> in a path, as its group 1. At a start
  position the group is the longest run without a slash, which must be non-empty and
  followed by \<open>/runs\<close>; the search tries the start positions from left to right.\<close>

definition match_here :: "string \<Rightarrow> string option" where
  "match_here s =
     (if prefix ''/models/'' s
      then (let after = drop 8 s;
                ident = takeWhile (\<lambda>c. c \<noteq> CHR ''/'') after
            in if ident \<noteq> [] \<and> prefix ''/runs'' (dropWhile (\<lambda>c. c \<noteq> CHR ''/'') after)
               then Some ident else None)
      else None)"

fun match_model_id :: "string \<Rightarrow> string option" where
  "match_model_id [] = None"
| "match_model_id (c # cs) =
     (case match_here (c # cs) of
        Some ident \<Rightarrow> Some ident
      | None \<Rightarrow> match_model_id cs)"

record request =
  req_method :: string
  req_url :: "string option"
  req_headers :: "(string \<times> string) list"
  req_body :: jsval
  req_timeout :: "jsval"

text \<open>What a node pushes to \<open>returnData\<close>: an item with its \<open>json\<close> and the index of the input
  item it is paired with, or, from a \<open>catch\<close> that continues, the item whose \<open>json\<close> is
  \<open>{error: err.message}\<close> for the caught error.\<close>

datatype item_out = Item jsval nat | CaughtItem error nat

text \<open>\<open>body.detail || body.error || body.message || `Request failed with status ${statusCode}`\<close>;
  the property accesses throw on \<open>undefined\<close> and \<open>null\<close>.\<close>

definition error_message :: "jsval \<Rightarrow> nat \<Rightarrow> error + jsval" where
  "error_message errorBody statusCode =
     (case get_prop errorBody ''detail'' of
        Inl e \<Rightarrow> Inl e
      | Inr detail \<Rightarrow>
          if truthy detail then Inr detail
          else (case get_prop errorBody ''error'' of
                  Inl e \<Rightarrow> Inl e
                | Inr err \<Rightarrow>
                    if truthy err then Inr err
                    else (case get_prop errorBody ''message'' of
                            Inl e \<Rightarrow> Inl e
                          | Inr msg \<Rightarrow>
                              if truthy msg then Inr msg
                              else Inr (JStr (''Request failed with status '' @ decimal statusCode)))))"

text \<open>\<open>headers['x-run-id'] || headers['X-Run-Id']\<close>.\<close>

definition run_id :: "jsval \<Rightarrow> error + jsval" where
  "run_id headers =
     (case get_prop headers ''x-run-id'' of
        Inl e \<Rightarrow> Inl e
      | Inr lower \<Rightarrow>
          if truthy lower then Inr lower else get_prop headers ''X-Run-Id'')"

text \<open>\<open>(x as number) || 200\<close> for a status code: a natural number (below \<open>10\<^sup>2\<^sup>1\<close>, from
  where on a template literal prints an exponent), or absent.\<close>

definition status_or_200 :: "jsval \<Rightarrow> error + nat" where
  "status_or_200 x =
     (if \<not> truthy x then Inr 200
      else (case x of
              JNum r \<Rightarrow>
                if r = of_nat (nat \<lfloor>r\<rfloor>) \<and> r < 10 ^ 21 then Inr (nat \<lfloor>r\<rfloor>)
                else Inl NotModelled
            | _ \<Rightarrow> Inl NotModelled))"

section \<open>The Leapter Tool node\<close>

text \<open>\<open>JSON.stringify\<close> of a list of strings, for the message of the routing failure.\<close>

definition json_escape :: "char \<Rightarrow> string" where
  "json_escape c =
     (let n = (of_char c :: nat)
      in if c = CHR ''\"'' then [CHR 0x5C, CHR ''\"'']
         else if n = 92 then [CHR 0x5C, CHR 0x5C]
         else if n = 8 then [CHR 0x5C, CHR ''b'']
         else if n = 9 then [CHR 0x5C, CHR ''t'']
         else if n = 10 then [CHR 0x5C, CHR ''n'']
         else if n = 12 then [CHR 0x5C, CHR ''f'']
         else if n = 13 then [CHR 0x5C, CHR ''r'']
         else if n < 32 then [CHR 0x5C, CHR ''u'', CHR ''0'', CHR ''0'', digit_char (n div 16), digit_char (n mod 16)]
         else [c])"

definition json_quote :: "string \<Rightarrow> string" where
  "json_quote s = [CHR ''\"''] @ concat (map json_escape s) @ [CHR ''\"'']"

fun join :: "string \<Rightarrow> string list \<Rightarrow> string" where
  "join sep [] = []"
| "join sep [x] = x"
| "join sep (x # y # ys) = x @ sep @ join sep (y # ys)"

definition stringify_keys :: "string list \<Rightarrow> string" where
  "stringify_keys keys = ''['' @ join '','' (map json_quote keys) @ '']''"

definition SYSTEM_FIELDS :: "string list" where
  "SYSTEM_FIELDS = [''sessionId'', ''action'', ''chatInput'', ''toolCallId'']"

text \<open>\<open>typeof input.action === 'string' ? input.action : ''\<close>.\<close>

definition action_of :: "(string \<times> jsval) list \<Rightarrow> string" where
  "action_of input = (case map_of input ''action'' of Some (JStr s) \<Rightarrow> s | _ \<Rightarrow> [])"

definition tool_args :: "(string \<times> jsval) list \<Rightarrow> (string \<times> jsval) list" where
  "tool_args input =
     fold (\<lambda>(key, val) toolArgs.
             if key \<notin> set SYSTEM_FIELDS then set_prop toolArgs key val else toolArgs)
       input []"

record blueprint =
  bp_name :: string
  bp_path :: string
  bp_operationUrl :: string
  bp_schemaKeys :: "string list"

text \<open>A \<open>Set\<close> of strings is the list of its members in insertion order.\<close>

definition set_add :: "string list \<Rightarrow> string \<Rightarrow> string list" where
  "set_add members k = (if k \<in> set members then members else members @ [k])"

text \<open>The schema keys of an operation (a truthy value, so its property accesses do not
  throw): the property names of the resolved JSON request schema.\<close>

definition schema_keys :: "jsval \<Rightarrow> jsval \<Rightarrow> error + string list" where
  "schema_keys operation spec =
     (let requestBody = get_prop_opt operation ''requestBody''
      in if truthy requestBody
         then (let content = get_prop_opt (get_prop_opt requestBody ''content'') ''application/json'';
                   rawSchema = get_prop_opt content ''schema''
               in if truthy rawSchema
                  then (case resolveSchema rawSchema spec of
                          Inl e \<Rightarrow> Inl e
                        | Inr resolvedSchema \<Rightarrow>
                            (let properties = get_prop_opt resolvedSchema ''properties''
                             in if truthy properties
                                then Inr (fold (\<lambda>key keys. set_add keys key)
                                            (map fst (own_entries properties)) [])
                                else Inr []))
                  else Inr [])
         else Inr [])"

definition slashes_to_underscores :: "string \<Rightarrow> string" where
  \<comment> \<open>\<open>path.replace(/\//g, '_')\<close>\<close>
  "slashes_to_underscores p = map (\<lambda>c. if c = CHR ''/'' then CHR ''_'' else c) p"

fun collect_blueprints ::
  "jsval \<Rightarrow> string \<Rightarrow> (string \<times> jsval) list \<Rightarrow> blueprint list \<Rightarrow> error + blueprint list" where
  "collect_blueprints spec serverUrl [] blueprints = Inr blueprints"
| "collect_blueprints spec serverUrl ((path, pathItem) # entries) blueprints =
     (case get_prop pathItem ''post'' of
        Inl e \<Rightarrow> Inl e
      | Inr operation \<Rightarrow>
          if \<not> truthy operation \<or> truthy (get_prop_opt operation ''deprecated'')
          then collect_blueprints spec serverUrl entries blueprints
          else (case schema_keys operation spec of
                  Inl e \<Rightarrow> Inl e
                | Inr schemaKeys \<Rightarrow>
                    (case js_or (get_prop_opt operation ''summary'')
                            (js_or (get_prop_opt operation ''operationId'')
                               (JStr (slashes_to_underscores path))) of
                       JStr bpName \<Rightarrow>
                         collect_blueprints spec serverUrl entries
                           (blueprints @
                            [\<lparr>bp_name = sanitizeToolName bpName, bp_path = path,
                              bp_operationUrl = serverUrl @ path, bp_schemaKeys = schemaKeys\<rparr>])
                     | _ \<Rightarrow> Inl TypeError)))"

text \<open>The scoring loop. The numbers of the source are doubles; the model computes the score
  in exact rationals.\<close>

fun score_loop ::
  "string list \<Rightarrow> blueprint list \<Rightarrow> rat \<Rightarrow> blueprint option \<Rightarrow> blueprint option" where
  "score_loop inputKeys [] bestScore matched = matched"
| "score_loop inputKeys (bp # bps) bestScore matched =
     (if length (bp_schemaKeys bp) = 0 then score_loop inputKeys bps bestScore matched
      else (let score = length (filter (\<lambda>key. key \<in> set (bp_schemaKeys bp)) inputKeys);
                coverage = of_nat score / of_nat (length (bp_schemaKeys bp));
                weightedScore = of_nat score + coverage
            in if weightedScore > bestScore
               then score_loop inputKeys bps weightedScore (Some bp)
               else score_loop inputKeys bps bestScore matched))"

definition route :: "string \<Rightarrow> (string \<times> jsval) list \<Rightarrow> blueprint list \<Rightarrow> blueprint option" where
  "route action toolArgs blueprints =
     (let matched = (if action \<noteq> []
                     then find (\<lambda>bp. bp_name bp = sanitizeToolName action) blueprints
                     else None)
      in case matched of
           Some bp \<Rightarrow> Some bp
         | None \<Rightarrow>
             if length blueprints = 1 then nth_opt blueprints 0
             else if length blueprints > 1
             then score_loop (remdups (map fst toolArgs)) blueprints (- 1) None
             else None)"

definition no_match_message :: "(string \<times> jsval) list \<Rightarrow> blueprint list \<Rightarrow> string" where
  "no_match_message toolArgs blueprints =
     ''No blueprint matched the input arguments: '' @ stringify_keys (map fst toolArgs) @ ''. ''
       @ ''Available blueprints: '' @ join '', '' (map bp_name blueprints)"

text \<open>\<open>(spec.servers?.[0]?.url || '').replace(/\/$/, '')\<close> and the test that follows it;
  \<open>falsy_template\<close> is a falsy value inside the template literal of the message.\<close>

fun first_element :: "jsval \<Rightarrow> jsval" where
  "first_element (JArr xs) = (case xs of [] \<Rightarrow> JUndefined | x # _ \<Rightarrow> x)"
| "first_element (JObj kvs) = (case map_of kvs ''0'' of Some v \<Rightarrow> v | None \<Rightarrow> JUndefined)"
| "first_element (JStr s) = (case s of [] \<Rightarrow> JUndefined | c # _ \<Rightarrow> JStr [c])"
| "first_element v = JUndefined"

definition strip_trailing_slash :: "string \<Rightarrow> string" where
  "strip_trailing_slash s = (if s \<noteq> [] \<and> last s = CHR ''/'' then butlast s else s)"

fun falsy_template :: "jsval \<Rightarrow> string" where
  "falsy_template JNull = ''null''"
| "falsy_template (JBool b) = ''false''"
| "falsy_template (JNum r) = ''0''"
| "falsy_template (JStr s) = s"
| "falsy_template v = ''undefined''"

definition server_url :: "jsval \<Rightarrow> error + string" where
  "server_url spec =
     (case get_prop spec ''servers'' of
        Inl e \<Rightarrow> Inl e
      | Inr servers \<Rightarrow>
          (let url = get_prop_opt (first_element servers) ''url''
           in if truthy url
              then (case url of
                      JStr u \<Rightarrow>
                        if startsWith (strip_trailing_slash u) ''http''
                        then Inr (strip_trailing_slash u)
                        else Inl (OperationError
                               (''OpenAPI spec server URL is not absolute: \"'' @ u @ ''\"''))
                    | _ \<Rightarrow> Inl TypeError)
              else Inl (OperationError
                     (''OpenAPI spec server URL is not absolute: \"'' @ falsy_template url @ ''\"''))))"

definition invalid_project_message :: "string \<Rightarrow> string" where
  "invalid_project_message projectValue =
     ''Invalid project configuration. Cannot parse spec URL from: \"'' @ projectValue @ ''\"''"

text \<open>The first half of one iteration of \<open>execute\<close>: from the input item to the request.
  \<open>http_get\<close> is the host's authenticated request helper fetching the specification.\<close>

definition tool_request ::
  "(string \<Rightarrow> error + jsval) \<Rightarrow> string \<Rightarrow> string \<Rightarrow> (string \<times> jsval) list
     \<Rightarrow> error + (blueprint \<times> string option \<times> request)" where
  "tool_request http_get executionId projectValue input =
     (let action = action_of input;
          toolArgs = tool_args input;
          projectParts = js_split ''::'' projectValue;
          specUrl = nth_opt projectParts 1;
          editorBaseUrl = nth_opt projectParts 2
      in case specUrl of
           None \<Rightarrow> Inl (OperationError (invalid_project_message projectValue))
         | Some url \<Rightarrow>
             if url = [] \<or> \<not> startsWith url ''http''
             then Inl (OperationError (invalid_project_message projectValue))
             else (case http_get url of
                     Inl e \<Rightarrow> Inl e
                   | Inr spec \<Rightarrow>
                       (case server_url spec of
                          Inl e \<Rightarrow> Inl e
                        | Inr serverUrl \<Rightarrow>
                            (case get_prop spec ''paths'' of
                               Inl e \<Rightarrow> Inl e
                             | Inr paths \<Rightarrow>
                                 (case object_entries paths of
                                    Inl e \<Rightarrow> Inl e
                                  | Inr entries \<Rightarrow>
                                      (case collect_blueprints spec serverUrl entries [] of
                                         Inl e \<Rightarrow> Inl e
                                       | Inr blueprints \<Rightarrow>
                                           (case route action toolArgs blueprints of
                                              None \<Rightarrow>
                                                Inl (OperationError
                                                       (no_match_message toolArgs blueprints))
                                            | Some matched \<Rightarrow>
                                                Inr (matched, editorBaseUrl,
                                                     \<lparr>req_method = ''POST'',
                                                      req_url = Some (bp_operationUrl matched),
                                                      req_headers =
                                                        [(''X-Correlation-Id'', executionId),
                                                         (''Content-Type'', ''application/json'')],
                                                      req_body = JObj toolArgs,
                                                      req_timeout = JUndefined\<rparr>))))))))"

text \<open>The second half: from the full response (\<open>body\<close>, \<open>headers\<close>, \<open>statusCode\<close>) to the
  pushed item.\<close>

definition tool_editor_link :: "string option \<Rightarrow> string option \<Rightarrow> string" where
  "tool_editor_link modelId editorBaseUrl =
     (case modelId of
        None \<Rightarrow> []
      | Some ident \<Rightarrow>
          (case editorBaseUrl of
             None \<Rightarrow> []
           | Some base \<Rightarrow>
               if base \<noteq> [] \<and> base \<noteq> ''undefined'' then base @ ''/'' @ ident else []))"

definition tool_respond :: "blueprint \<Rightarrow> string option \<Rightarrow> nat \<Rightarrow> jsval \<Rightarrow> error + item_out" where
  "tool_respond matched editorBaseUrl itemIndex response =
     (case get_prop response ''statusCode'' of
        Inl e \<Rightarrow> Inl e
      | Inr rawStatus \<Rightarrow>
          (case status_or_200 rawStatus of
             Inl e \<Rightarrow> Inl e
           | Inr statusCode \<Rightarrow>
               (let responseBody = get_prop_opt response ''body''
                in if statusCode \<ge> 400
                   then (let errorBody = (if is_object responseBody then responseBody else JObj [])
                         in case error_message errorBody statusCode of
                              Inl e \<Rightarrow> Inl e
                            | Inr errorMessage \<Rightarrow>
                                Inr (Item (JObj [(''error'', errorMessage),
                                                 (''statusCode'', JNum (of_nat statusCode))])
                                       itemIndex))
                   else (case run_id (get_prop_opt response ''headers'') of
                           Inl e \<Rightarrow> Inl e
                         | Inr runId \<Rightarrow>
                             (let modelId = match_model_id (bp_path matched);
                                  editorLink = tool_editor_link modelId editorBaseUrl;
                                  resultObj = (if is_object responseBody then responseBody
                                               else JObj [(''result'', responseBody)])
                              in Inr (Item (JObj (AList.update ''_metadata''
                                               (JObj [(''runId'', runId),
                                                      (''editorLink'', JStr editorLink)])
                                               (spread [] resultObj)))
                                        itemIndex))))))"

text \<open>The \<open>catch\<close> of the Tool node rethrows a \<open>NodeOperationError\<close> and wraps anything else.\<close>

fun tool_catch :: "error \<Rightarrow> error" where
  "tool_catch (OperationError m) = OperationError m"
| "tool_catch (ExecutionFailed e) = ExecutionFailed e"
| "tool_catch NotModelled = NotModelled"
| "tool_catch e = ExecutionFailed e"

definition tool_execute_item ::
  "(string \<Rightarrow> error + jsval) \<Rightarrow> (request \<Rightarrow> error + jsval) \<Rightarrow> string \<Rightarrow> string
     \<Rightarrow> (string \<times> jsval) list \<Rightarrow> nat \<Rightarrow> error + item_out" where
  "tool_execute_item http_get http_post executionId projectValue input itemIndex =
     (case (case tool_request http_get executionId projectValue input of
              Inl e \<Rightarrow> Inl e
            | Inr (matched, editorBaseUrl, req) \<Rightarrow>
                (case http_post req of
                   Inl e \<Rightarrow> Inl e
                 | Inr response \<Rightarrow> tool_respond matched editorBaseUrl itemIndex response)) of
        Inl e \<Rightarrow> Inl (tool_catch e)
      | Inr out \<Rightarrow> Inr out)"

section \<open>The Leapter node\<close>

record leapter_options =
  opt_referer :: "string option"
  opt_timeout :: "nat option"

text \<open>\<open>method.toUpperCase()\<close>, for the letters \<open>a\<close>..\<open>z\<close>; a code unit from 128 on is not
  modelled (its capital may lie outside the range of the model).\<close>

definition upper_char :: "char \<Rightarrow> char" where
  "upper_char c =
     (let n = (of_char c :: nat) in if 97 \<le> n \<and> n \<le> 122 then char_of (n - 32) else c)"

definition toUpperCase :: "string \<Rightarrow> error + string" where
  "toUpperCase s =
     (if \<forall>c \<in> set s. (of_char c :: nat) < 128 then Inr (map upper_char s) else Inl NotModelled)"

text \<open>Visual mode: the entries \<open>body.<name>\<close> of the mapped values, each through
  \<open>tryParseJson\<close>, assigned to \<open>bodyParams[name]\<close>.\<close>

fun visual_params ::
  "(string \<Rightarrow> error + jsval) \<Rightarrow> (string \<times> jsval) list \<Rightarrow> (string \<times> jsval) list
     \<Rightarrow> error + (string \<times> jsval) list" where
  "visual_params parse [] bodyParams = Inr bodyParams"
| "visual_params parse ((key, val) # entries) bodyParams =
     (if startsWith key ''body.''
      then (case tryParseJson parse val of
              Inl e \<Rightarrow> Inl e
            | Inr parsedValue \<Rightarrow>
                visual_params parse entries
                  (set_prop bodyParams (replace_first ''body.'' [] key) parsedValue))
      else visual_params parse entries bodyParams)"

definition body_params ::
  "(string \<Rightarrow> error + jsval) \<Rightarrow> string \<Rightarrow> jsval \<Rightarrow> string \<Rightarrow> error + jsval" where
  "body_params parse inputMode parameters parametersJson =
     (if inputMode = ''visual''
      then (case get_prop parameters ''value'' of
              Inl e \<Rightarrow> Inl e
            | Inr given \<Rightarrow>
                (case visual_params parse (own_entries (js_or given (JObj []))) [] of
                   Inl e \<Rightarrow> Inl e
                 | Inr bodyParams \<Rightarrow> Inr (JObj bodyParams)))
      else parse parametersJson)"

text \<open>The response of the request helper, taken apart as the code does: a full response
  object, a direct response, a string to parse, or anything else.\<close>

definition leapter_unpack ::
  "(string \<Rightarrow> error + jsval) \<Rightarrow> jsval \<Rightarrow> error + (jsval \<times> jsval \<times> nat)" where
  "leapter_unpack parse response =
     (case response of
        JObj kvs \<Rightarrow>
          if ''body'' \<in> fst ` set kvs \<and> ''headers'' \<in> fst ` set kvs
          then (case (case get_prop_opt response ''body'' of
                        JStr s \<Rightarrow> parse s
                      | b \<Rightarrow> Inr b) of
                  Inl e \<Rightarrow> Inl e
                | Inr responseBody \<Rightarrow>
                    (case status_or_200 (get_prop_opt response ''statusCode'') of
                       Inl e \<Rightarrow> Inl e
                     | Inr statusCode \<Rightarrow>
                         Inr (responseBody, get_prop_opt response ''headers'', statusCode)))
          else Inr (response, JObj [], 200)
      | JArr xs \<Rightarrow> Inr (response, JObj [], 200)
      | JStr s \<Rightarrow>
          (case parse s of
             Inl e \<Rightarrow> Inl e
           | Inr responseBody \<Rightarrow> Inr (responseBody, JObj [], 200))
      | _ \<Rightarrow> Inr (JObj [], JObj [], 200))"

definition leapter_editor_link :: "string option \<Rightarrow> string option \<Rightarrow> jsval" where
  "leapter_editor_link modelId editorBaseUrl =
     (case modelId of
        Some ident \<Rightarrow> JStr (template editorBaseUrl @ ''/'' @ ident)
      | None \<Rightarrow> opt_val editorBaseUrl)"

definition leapter_respond ::
  "(string \<Rightarrow> error + jsval) \<Rightarrow> bool \<Rightarrow> string option \<Rightarrow> string option \<Rightarrow> nat \<Rightarrow> jsval
     \<Rightarrow> error + item_out" where
  "leapter_respond parse continueOnFail modelId editorBaseUrl itemIndex response =
     (case leapter_unpack parse response of
        Inl e \<Rightarrow> Inl e
      | Inr (responseBody, responseHeaders, statusCode) \<Rightarrow>
          if statusCode \<ge> 400
          then (case error_message responseBody statusCode of
                  Inl e \<Rightarrow> Inl e
                | Inr errorMessage \<Rightarrow>
                    if continueOnFail
                    then Inr (Item (JObj (spread [(''error'', errorMessage),
                                                  (''statusCode'', JNum (of_nat statusCode))]
                                            responseBody))
                                itemIndex)
                    else (case errorMessage of
                            JStr m \<Rightarrow> Inl (OperationError m)
                          | _ \<Rightarrow> Inl NotModelled))
          else (case run_id responseHeaders of
                  Inl e \<Rightarrow> Inl e
                | Inr runId \<Rightarrow>
                    Inr (Item (JObj (AList.update ''_metadata''
                                 (JObj [(''runId'', runId),
                                        (''editorLink'', leapter_editor_link modelId editorBaseUrl)])
                                 (spread [] responseBody)))
                           itemIndex)))"

text \<open>One iteration of \<open>execute\<close>. Its \<open>catch\<close> receives every error thrown in the body,
  the node's own \<open>NodeOperationError\<close> included. \<open>http\<close> is the host's request helper.\<close>

definition leapter_try ::
  "(string \<Rightarrow> error + jsval) \<Rightarrow> (request \<Rightarrow> error + jsval) \<Rightarrow> bool \<Rightarrow> string option
     \<Rightarrow> string \<Rightarrow> string \<Rightarrow> jsval \<Rightarrow> string \<Rightarrow> leapter_options \<Rightarrow> nat \<Rightarrow> error + item_out" where
  "leapter_try parse http continueOnFail executionId operation inputMode parameters
       parametersJson options itemIndex =
     (let parts = js_split ''::'' operation;
          method = nth_opt parts 0;
          path = nth_opt parts 1;
          operationUrl = nth_opt parts 2;
          editorBaseUrl = nth_opt parts 3
      in case path of
           None \<Rightarrow> Inl TypeError
         | Some p \<Rightarrow>
             (let modelId = match_model_id p
              in case body_params parse inputMode parameters parametersJson of
                   Inl e \<Rightarrow> Inl e
                 | Inr bodyParams \<Rightarrow>
                     (case (case method of Some m \<Rightarrow> toUpperCase m | None \<Rightarrow> Inl TypeError) of
                        Inl e \<Rightarrow> Inl e
                      | Inr upper \<Rightarrow>
                          (case http \<lparr>req_method = upper, req_url = operationUrl,
                                      req_headers =
                                        [(''X-Correlation-Id'',
                                          (case executionId of Some x \<Rightarrow> x | None \<Rightarrow> [])),
                                         (''Content-Type'', ''application/json'')]
                                        @ (case opt_referer options of
                                             Some r \<Rightarrow> if r \<noteq> [] then [(''X-Referer'', r)] else []
                                           | None \<Rightarrow> []),
                                      req_body = bodyParams,
                                      req_timeout =
                                        (case opt_timeout options of
                                           Some t \<Rightarrow> if t \<noteq> 0 then JNum (of_nat t) else JUndefined
                                         | None \<Rightarrow> JUndefined)\<rparr> of
                             Inl e \<Rightarrow> Inl e
                           | Inr response \<Rightarrow>
                               leapter_respond parse continueOnFail modelId editorBaseUrl
                                 itemIndex response))))"

definition leapter_execute_item ::
  "(string \<Rightarrow> error + jsval) \<Rightarrow> (request \<Rightarrow> error + jsval) \<Rightarrow> bool \<Rightarrow> string option
     \<Rightarrow> string \<Rightarrow> string \<Rightarrow> jsval \<Rightarrow> string \<Rightarrow> leapter_options \<Rightarrow> nat \<Rightarrow> error + item_out" where
  "leapter_execute_item parse http continueOnFail executionId operation inputMode parameters
       parametersJson options itemIndex =
     (case leapter_try parse http continueOnFail executionId operation inputMode parameters
             parametersJson options itemIndex of
        Inr out \<Rightarrow> Inr out
      | Inl NotModelled \<Rightarrow> Inl NotModelled
      | Inl e \<Rightarrow> if continueOnFail then Inr (CaughtItem e itemIndex) else Inl (ExecutionFailed e))"

section \<open>The typed parameter projection\<close>

text \<open>The Zod types the projection builds: \<open>z.string()\<close>, \<open>z.enum(values)\<close>, \<open>z.number()\<close>,
  \<open>z.boolean()\<close>, \<open>z.array(item)\<close>, \<open>z.object(shape)\<close>, \<open>z.record(z.unknown())\<close>,
  \<open>type.describe(text)\<close> and \<open>type.optional()\<close>.\<close>

datatype zod =
    ZString
  | ZEnum "jsval list"
  | ZNumber
  | ZBoolean
  | ZArray zod
  | ZObject "(string \<times> zod) list"
  | ZRecord
  | ZDescribed zod jsval
  | ZOptional zod

text \<open>\<open>resolved.required?.includes(key) ?? false\<close>: \<open>false\<close> for \<open>undefined\<close> and \<open>null\<close>,
  membership for an array, a \<open>TypeError\<close> for a value without \<open>includes\<close>; the substring test
  of a string is not modelled.\<close>

fun required_includes :: "jsval \<Rightarrow> string \<Rightarrow> error + bool" where
  "required_includes JUndefined key = Inr False"
| "required_includes JNull key = Inr False"
| "required_includes (JArr xs) key = Inr (JStr key \<in> set xs)"
| "required_includes (JStr s) key = Inl NotModelled"
| "required_includes v key = Inl TypeError"

text \<open>\<open>(schema.required || []).includes(fieldName)\<close>.\<close>

definition required_or_empty_includes :: "jsval \<Rightarrow> string \<Rightarrow> error + bool" where
  "required_or_empty_includes required key =
     (if truthy required then required_includes required key else Inr False)"

text \<open>\<open>resolved.enum && resolved.enum.length > 0\<close>, and the values given to \<open>z.enum\<close>. The
  declared type of \<open>enum\<close> is an array; the \<open>length\<close> of a string or of an object that has
  such a property is not modelled.\<close>

fun enum_values :: "jsval \<Rightarrow> error + jsval list option" where
  "enum_values (JArr xs) = Inr (if xs \<noteq> [] then Some xs else None)"
| "enum_values (JStr s) = (if s \<noteq> [] then Inl NotModelled else Inr None)"
| "enum_values (JObj kvs) = (if ''length'' \<in> fst ` set kvs then Inl NotModelled else Inr None)"
| "enum_values v = Inr None"

text \<open>The loop over \<open>Object.entries(properties)\<close>: each property is converted by \<open>convert\<close>
  and assigned to \<open>shape[key]\<close>.\<close>

fun build_shape ::
  "(jsval \<Rightarrow> bool \<Rightarrow> error + zod) \<Rightarrow> (string \<Rightarrow> error + bool) \<Rightarrow> (string \<times> jsval) list
     \<Rightarrow> (string \<times> zod) list \<Rightarrow> error + (string \<times> zod) list" where
  "build_shape convert is_required [] shape = Inr shape"
| "build_shape convert is_required ((key, propSchema) # entries) shape =
     (case is_required key of
        Inl e \<Rightarrow> Inl e
      | Inr isRequired \<Rightarrow>
          (case convert propSchema isRequired of
             Inl e \<Rightarrow> Inl e
           | Inr zodType \<Rightarrow>
               build_shape convert is_required entries (set_prop shape key zodType)))"

text \<open>\<open>openApiToZod\<close>, in three parts: the \<open>switch\<close> on \<open>resolved.type\<close>, with the
  recursive call as \<open>convert\<close>; the description and the \<open>optional\<close> wrapper that follow it;
  and the function itself. The recursion follows \<open>$ref\<close>s and need not end; \<open>depth\<close> is the
  number of nested calls the engine allows. The declared type of \<open>properties\<close> is an object;
  another truthy value is not modelled.\<close>

definition switch_type :: "(jsval \<Rightarrow> bool \<Rightarrow> error + zod) \<Rightarrow> jsval \<Rightarrow> jsval \<Rightarrow> error + zod" where
  "switch_type convert resolved ty =
     (if ty = JStr ''string''
      then (case enum_values (get_prop_opt resolved ''enum'') of
              Inl e \<Rightarrow> Inl e
            | Inr (Some vs) \<Rightarrow> Inr (ZEnum vs)
            | Inr None \<Rightarrow> Inr ZString)
      else if ty = JStr ''integer'' \<or> ty = JStr ''number'' then Inr ZNumber
      else if ty = JStr ''boolean'' then Inr ZBoolean
      else if ty = JStr ''array''
      then (if truthy (get_prop_opt resolved ''items'')
            then (case convert (get_prop_opt resolved ''items'') True of
                    Inl e \<Rightarrow> Inl e
                  | Inr itemSchema \<Rightarrow> Inr (ZArray itemSchema))
            else Inr (ZArray ZString))
      else if ty = JStr ''object''
      then (if truthy (get_prop_opt resolved ''properties'')
            then (case get_prop_opt resolved ''properties'' of
                    JObj properties \<Rightarrow>
                      (case build_shape convert
                              (required_includes (get_prop_opt resolved ''required''))
                              properties [] of
                         Inl e \<Rightarrow> Inl e
                       | Inr shape \<Rightarrow> Inr (ZObject shape))
                  | _ \<Rightarrow> Inl NotModelled)
            else Inr ZRecord)
      else Inr ZString)"

definition describe_and_wrap :: "jsval \<Rightarrow> bool \<Rightarrow> zod \<Rightarrow> zod" where
  "describe_and_wrap resolved required zodType =
     (let described =
            (if truthy (get_prop_opt resolved ''description'')
             then ZDescribed zodType (get_prop_opt resolved ''description'')
             else zodType)
      in if required then described else ZOptional described)"

fun openApiToZod :: "nat \<Rightarrow> jsval \<Rightarrow> jsval \<Rightarrow> bool \<Rightarrow> error + zod" where
  "openApiToZod 0 schema spec required = Inl RangeError"
| "openApiToZod (Suc depth) schema spec required =
     (case resolveSchema schema spec of
        Inl e \<Rightarrow> Inl e
      | Inr resolved \<Rightarrow>
          (case get_prop resolved ''type'' of
             Inl e \<Rightarrow> Inl e
           | Inr ty \<Rightarrow>
               (case switch_type (\<lambda>s r. openApiToZod depth s spec r) resolved ty of
                  Inl e \<Rightarrow> Inl e
                | Inr zodType \<Rightarrow> Inr (describe_and_wrap resolved required zodType))))"

text \<open>\<open>buildZodSchemaFromOperation\<close>, for an operation that is an object (the caller has
  tested it).\<close>

definition body_schema :: "jsval \<Rightarrow> jsval" where
  "body_schema operation =
     get_prop_opt
       (get_prop_opt (get_prop_opt (get_prop_opt operation ''requestBody'') ''content'')
          ''application/json'')
       ''schema''"

definition buildZodSchemaFromOperation :: "nat \<Rightarrow> jsval \<Rightarrow> jsval \<Rightarrow> error + (string \<times> zod) list" where
  "buildZodSchemaFromOperation depth operation spec =
     (if \<not> truthy (body_schema operation) then Inr []
      else (case resolveSchema (body_schema operation) spec of
              Inl e \<Rightarrow> Inl e
            | Inr schema \<Rightarrow>
                (case get_prop schema ''properties'' of
                   Inl e \<Rightarrow> Inl e
                 | Inr properties \<Rightarrow>
                     if truthy properties
                     then (case properties of
                             JObj props \<Rightarrow>
                               build_shape (\<lambda>s r. openApiToZod depth s spec r)
                                 (required_or_empty_includes (get_prop_opt schema ''required''))
                                 props []
                           | _ \<Rightarrow> Inl NotModelled)
                     else Inr [])))"

section \<open>The specification's wording and the notions of the properties\<close>

text \<open>"Replace each whitespace run with a single underscore", read character by character:
  a whitespace character becomes an underscore when it opens a run and disappears when it
  continues one.\<close>

fun spec_underscore_runs :: "bool \<Rightarrow> string \<Rightarrow> string" where
  "spec_underscore_runs in_run [] = []"
| "spec_underscore_runs in_run (c # cs) =
     (if is_space c then (if in_run then [] else ''_'') @ spec_underscore_runs True cs
      else c # spec_underscore_runs False cs)"

definition spec_sanitize :: "string \<Rightarrow> string" where
  "spec_sanitize name =
     (let lowered = map lower_char name;
          underscored = spec_underscore_runs False lowered;
          stripped = filter name_char underscored;
          truncated = take 64 stripped
      in if truncated = [] then ''leapter_tool'' else truncated)"

text \<open>The name at a position of the deduplicated list, from the number of earlier
  occurrences of the same name.\<close>

definition spec_dedup_entry :: "string list \<Rightarrow> string \<Rightarrow> string" where
  "spec_dedup_entry earlier name =
     (let c = count_list earlier name
      in if c = 0 then name else take 64 (name @ ''_'' @ decimal c))"

text \<open>A string that "starts and ends with matching bracket or brace".\<close>

definition spec_bracketed :: "string \<Rightarrow> bool" where
  "spec_bracketed t =
     (2 \<le> length t \<and>
      ((hd t = CHR ''['' \<and> last t = CHR '']'') \<or> (hd t = CHR ''{'' \<and> last t = CHR ''}'')))"

text \<open>The own property of a header object, or \<open>undefined\<close>.\<close>

definition header :: "(string \<times> jsval) list \<Rightarrow> string \<Rightarrow> jsval" where
  "header hs name = (case map_of hs name of Some v \<Rightarrow> v | None \<Rightarrow> JUndefined)"

text \<open>The \<open>runId\<close> of the metadata of a pushed item.\<close>

fun metadata_field :: "item_out \<Rightarrow> string \<Rightarrow> jsval" where
  "metadata_field (Item json i) k = get_prop_opt (get_prop_opt json ''_metadata'') k"
| "metadata_field (CaughtItem e i) k = JUndefined"

declare metadata_field.simps [simp del]

text \<open>"The first of \<open>detail\<close>, \<open>error\<close>, \<open>message\<close>", read with the truthiness of \<open>||\<close>.\<close>

definition spec_first_truthy :: "jsval list \<Rightarrow> jsval \<Rightarrow> jsval" where
  "spec_first_truthy candidates fallback =
     (case filter truthy candidates of v # _ \<Rightarrow> v | [] \<Rightarrow> fallback)"

text \<open>The value under \<open>x-run-id\<close> when truthy, else the value under \<open>X-Run-Id\<close>.\<close>

definition two_spellings :: "(string \<times> jsval) list \<Rightarrow> jsval" where
  "two_spellings hs =
     (if truthy (header hs ''x-run-id'') then header hs ''x-run-id'' else header hs ''X-Run-Id'')"

text \<open>The candidate fields of an error body, in the order of preference.\<close>

definition message_fields :: "jsval \<Rightarrow> jsval list" where
  "message_fields b = [get_prop_opt b ''detail'', get_prop_opt b ''error'', get_prop_opt b ''message'']"

definition generic_message :: "nat \<Rightarrow> jsval" where
  "generic_message n = JStr (''Request failed with status '' @ decimal n)"

text \<open>The routing procedure of the specification. A candidate is a path item whose POST
  operation exists and is not deprecated.\<close>

definition is_candidate :: "jsval \<Rightarrow> bool" where
  "is_candidate pathItem =
     (truthy (get_prop_opt pathItem ''post'')
      \<and> \<not> truthy (get_prop_opt (get_prop_opt pathItem ''post'') ''deprecated''))"

definition display_name :: "string \<Rightarrow> jsval \<Rightarrow> jsval" where
  "display_name path operation =
     js_or (get_prop_opt operation ''summary'')
       (js_or (get_prop_opt operation ''operationId'') (JStr (slashes_to_underscores path)))"

definition spec_score :: "string list \<Rightarrow> blueprint \<Rightarrow> rat" where
  "spec_score inputKeys c =
     of_nat (card (set inputKeys \<inter> set (bp_schemaKeys c)))
     + of_nat (card (set inputKeys \<inter> set (bp_schemaKeys c)))
       / of_nat (card (set (bp_schemaKeys c)))"

text \<open>The first element whose score no other element exceeds.\<close>

definition spec_first_max :: "('a \<Rightarrow> rat) \<Rightarrow> 'a list \<Rightarrow> 'a option" where
  "spec_first_max f xs = find (\<lambda>x. \<forall>y \<in> set xs. f y \<le> f x) xs"

definition spec_route :: "jsval option \<Rightarrow> string list \<Rightarrow> blueprint list \<Rightarrow> blueprint option" where
  "spec_route action inputKeys candidates =
     (case (case action of
              Some (JStr a) \<Rightarrow>
                if a \<noteq> [] then find (\<lambda>c. bp_name c = sanitizeToolName a) candidates else None
            | _ \<Rightarrow> None) of
        Some c \<Rightarrow> Some c
      | None \<Rightarrow>
          (case candidates of
             [c] \<Rightarrow> Some c
           | _ \<Rightarrow> spec_first_max (spec_score inputKeys)
                    (filter (\<lambda>c. bp_schemaKeys c \<noteq> []) candidates)))"

text \<open>The score as the loop of the source computes it, and what the collection records
  for a candidate.\<close>

definition weighted_score :: "string list \<Rightarrow> blueprint \<Rightarrow> rat" where
  "weighted_score inputKeys bp =
     of_nat (length (filter (\<lambda>key. key \<in> set (bp_schemaKeys bp)) inputKeys))
     + of_nat (length (filter (\<lambda>key. key \<in> set (bp_schemaKeys bp)) inputKeys))
       / of_nat (length (bp_schemaKeys bp))"

definition candidate_of :: "jsval \<Rightarrow> string \<Rightarrow> string \<times> jsval \<Rightarrow> blueprint \<Rightarrow> bool" where
  "candidate_of spec serverUrl entry c =
     (bp_path c = fst entry
      \<and> bp_operationUrl c = serverUrl @ fst entry
      \<and> schema_keys (get_prop_opt (snd entry) ''post'') spec = Inr (bp_schemaKeys c)
      \<and> (case display_name (fst entry) (get_prop_opt (snd entry) ''post'') of
            JStr n \<Rightarrow> bp_name c = sanitizeToolName n
          | _ \<Rightarrow> False))"

text \<open>Nesting in a projected type and in the schema it comes from: a step goes to a
  field of an object or to the items of an array. \<open>zod_at\<close> follows the steps through a
  Zod type (looking through \<open>optional\<close> and \<open>describe\<close>), and \<open>zod_required\<close> tells whether
  the type reached has a field \<open>k\<close> and, if it has, whether the field is required (not
  wrapped in \<open>optional\<close>).\<close>

datatype step = FieldStep string | ItemsStep

fun is_optional :: "zod \<Rightarrow> bool" where
  "is_optional (ZOptional z) = True"
| "is_optional z = False"

fun core :: "zod \<Rightarrow> zod" where
  "core (ZOptional z) = core z"
| "core (ZDescribed z d) = core z"
| "core z = z"

fun zod_at :: "zod \<Rightarrow> step list \<Rightarrow> zod option" where
  "zod_at z [] = Some z"
| "zod_at z (FieldStep k # steps) =
     (case core z of
        ZObject shape \<Rightarrow> (case map_of shape k of Some zk \<Rightarrow> zod_at zk steps | None \<Rightarrow> None)
      | _ \<Rightarrow> None)"
| "zod_at z (ItemsStep # steps) =
     (case core z of ZArray item \<Rightarrow> zod_at item steps | _ \<Rightarrow> None)"

definition zod_required :: "zod \<Rightarrow> step list \<Rightarrow> string \<Rightarrow> bool option" where
  "zod_required z steps k = map_option (\<lambda>zf. \<not> is_optional zf) (zod_at z (steps @ [FieldStep k]))"

text \<open>The same in the schema. A schema node is a schema with its \<open>$ref\<close> followed. The
  names in its \<open>required\<close> list are \<open>required_names\<close>, and \<open>property_of\<close> is the schema of its
  property \<open>k\<close>; the name \<open>__proto__\<close> stands for no field. \<open>node_at\<close> follows the steps: to a
  property of a node of type \<open>object\<close>, to the \<open>items\<close> of a node of type \<open>array\<close>.
  \<open>schema_required\<close> tells whether the node reached is an object with a property \<open>k\<close> and, if
  it is, whether \<open>k\<close> is in the \<open>required\<close> list of that node, the immediate parent.\<close>

definition required_names :: "jsval \<Rightarrow> string list" where
  "required_names node =
     (case get_prop_opt node ''required'' of
        JArr xs \<Rightarrow> [name. JStr name \<leftarrow> xs]
      | _ \<Rightarrow> [])"

definition property_of :: "jsval \<Rightarrow> string \<Rightarrow> jsval option" where
  "property_of node k =
     (case get_prop_opt node ''properties'' of
        JObj props \<Rightarrow> if k = ''__proto__'' then None else map_of props k
      | _ \<Rightarrow> None)"

fun node_at :: "jsval \<Rightarrow> jsval \<Rightarrow> step list \<Rightarrow> jsval option" where
  "node_at spec schema [] =
     (case resolveSchema schema spec of Inr node \<Rightarrow> Some node | Inl e \<Rightarrow> None)"
| "node_at spec schema (FieldStep k # steps) =
     (case resolveSchema schema spec of
        Inr node \<Rightarrow>
          if get_prop_opt node ''type'' = JStr ''object''
          then (case property_of node k of Some p \<Rightarrow> node_at spec p steps | None \<Rightarrow> None)
          else None
      | Inl e \<Rightarrow> None)"
| "node_at spec schema (ItemsStep # steps) =
     (case resolveSchema schema spec of
        Inr node \<Rightarrow>
          if get_prop_opt node ''type'' = JStr ''array'' \<and> truthy (get_prop_opt node ''items'')
          then node_at spec (get_prop_opt node ''items'') steps
          else None
      | Inl e \<Rightarrow> None)"

definition schema_required :: "jsval \<Rightarrow> jsval \<Rightarrow> step list \<Rightarrow> string \<Rightarrow> bool option" where
  "schema_required spec schema steps k =
     (case node_at spec schema steps of
        Some parent \<Rightarrow>
          if get_prop_opt parent ''type'' = JStr ''object'' \<and> property_of parent k \<noteq> None
          then Some (k \<in> set (required_names parent))
          else None
      | None \<Rightarrow> None)"

text \<open>For the request body of an operation the root is the resolved request schema, whose
  properties are the top-level fields whatever its \<open>type\<close> says.\<close>

definition operation_required :: "jsval \<Rightarrow> jsval \<Rightarrow> step list \<Rightarrow> string \<Rightarrow> bool option" where
  "operation_required spec operation steps k =
     (if \<not> truthy (body_schema operation) then None
      else (case resolveSchema (body_schema operation) spec of
              Inl e \<Rightarrow> None
            | Inr base_node \<Rightarrow>
                (case steps of
                   [] \<Rightarrow> (case property_of base_node k of
                            Some p \<Rightarrow> Some (k \<in> set (required_names base_node))
                          | None \<Rightarrow> None)
                 | FieldStep k' # rest \<Rightarrow>
                     (case property_of base_node k' of
                        Some p \<Rightarrow> schema_required spec p rest k
                      | None \<Rightarrow> None)
                 | ItemsStep # rest \<Rightarrow> None)))"

text \<open>A schema that the projection accepts: with its \<open>$ref\<close>s followed it is a tree of fewer
  than \<open>n\<close> levels, every node of it is a value other than \<open>undefined\<close> and \<open>null\<close>, the
  \<open>enum\<close> of a string node is absent or an array, and the \<open>properties\<close> of an object node
  are absent or an object, its \<open>required\<close> list absent or an array.\<close>

definition absent_or_array :: "jsval \<Rightarrow> bool" where
  "absent_or_array v = (case v of JUndefined \<Rightarrow> True | JArr xs \<Rightarrow> True | _ \<Rightarrow> False)"

fun well_formed :: "nat \<Rightarrow> jsval \<Rightarrow> jsval \<Rightarrow> bool" where
  "well_formed 0 spec schema = False"
| "well_formed (Suc n) spec schema =
     (case resolveSchema schema spec of
        Inl e \<Rightarrow> False
      | Inr node \<Rightarrow>
          node \<noteq> JUndefined \<and> node \<noteq> JNull
          \<and> (if get_prop_opt node ''type'' = JStr ''string''
             then absent_or_array (get_prop_opt node ''enum'')
             else if get_prop_opt node ''type'' = JStr ''array''
             then (truthy (get_prop_opt node ''items'')
                   \<longrightarrow> well_formed n spec (get_prop_opt node ''items''))
             else if get_prop_opt node ''type'' = JStr ''object''
             then (case get_prop_opt node ''properties'' of
                     JUndefined \<Rightarrow> True
                   | JObj props \<Rightarrow>
                       absent_or_array (get_prop_opt node ''required'')
                       \<and> list_all (\<lambda>entry. well_formed n spec (snd entry)) props
                   | _ \<Rightarrow> False)
             else True))"

definition well_formed_operation :: "nat \<Rightarrow> jsval \<Rightarrow> jsval \<Rightarrow> bool" where
  "well_formed_operation n spec operation =
     (if \<not> truthy (body_schema operation) then True
      else (case resolveSchema (body_schema operation) spec of
              Inl e \<Rightarrow> False
            | Inr base_node \<Rightarrow>
                base_node \<noteq> JUndefined \<and> base_node \<noteq> JNull
                \<and> (case get_prop_opt base_node ''properties'' of
                     JUndefined \<Rightarrow> True
                   | JObj props \<Rightarrow>
                       absent_or_array (get_prop_opt base_node ''required'')
                       \<and> list_all (\<lambda>entry. well_formed n spec (snd entry)) props
                   | _ \<Rightarrow> False)))"

section \<open>A sample project\<close>

definition sample_operation :: "string \<Rightarrow> string \<Rightarrow> jsval" where
  "sample_operation summary field =
     JObj [(''post'',
            JObj [(''summary'', JStr summary),
                  (''requestBody'',
                   JObj [(''content'',
                          JObj [(''application/json'',
                                 JObj [(''schema'',
                                        JObj [(''type'', JStr ''object''),
                                              (''properties'',
                                               JObj [(field, JObj [(''type'', JStr ''string'')])])])])])])])]"

definition sample_spec :: "string \<Rightarrow> jsval" where
  "sample_spec summary =
     JObj [(''openapi'', JStr ''3.0.0''),
           (''servers'', JArr [JObj [(''url'', JStr ''https://api.leapter.test/'')]]),
           (''paths'',
            JObj [(''/models/weather/runs'', sample_operation summary ''city''),
                  (''/models/search/runs'', sample_operation ''Search'' ''query'')])]"

definition sample_candidate :: "string \<Rightarrow> string \<Rightarrow> string \<Rightarrow> blueprint" where
  "sample_candidate name model field =
     \<lparr>bp_name = name, bp_path = ''/models/'' @ model @ ''/runs'',
      bp_operationUrl = ''https://api.leapter.test/models/'' @ model @ ''/runs'',
      bp_schemaKeys = [field]\<rparr>"

definition sample_request :: "string \<Rightarrow> (string \<times> jsval) list \<Rightarrow> request" where
  "sample_request model args =
     \<lparr>req_method = ''POST'',
      req_url = Some (''https://api.leapter.test/models/'' @ model @ ''/runs''),
      req_headers = [(''X-Correlation-Id'', ''exec1''), (''Content-Type'', ''application/json'')],
      req_body = JObj args, req_timeout = JUndefined\<rparr>"

definition sample_project :: string where
  "sample_project = ''p1::https://lab.leapter.test/spec::https://lab.leapter.test/e::Demo''"


text \<open>A request schema with three levels of objects and an array of objects: \<open>name\<close> is
  required at the top, \<open>street\<close> inside \<open>address\<close> (reached through a \<open>$ref\<close>), \<open>lat\<close> inside
  its \<open>geo\<close>, and \<open>label\<close> inside the items of \<open>stops\<close>.\<close>

definition sample_nested_spec :: jsval where
  "sample_nested_spec =
     JObj [(''components'',
            JObj [(''schemas'',
                   JObj [(''Address'',
                          JObj [(''type'', JStr ''object''),
                                (''required'', JArr [JStr ''street'']),
                                (''properties'',
                                 JObj [(''street'', JObj [(''type'', JStr ''string'')]),
                                       (''name'', JObj [(''type'', JStr ''string'')]),
                                       (''geo'',
                                        JObj [(''type'', JStr ''object''),
                                              (''required'', JArr [JStr ''lat'']),
                                              (''properties'',
                                               JObj [(''lat'', JObj [(''type'', JStr ''number'')]),
                                                     (''lon'', JObj [(''type'', JStr ''number'')])])])])])])])]"

definition sample_nested_operation :: jsval where
  "sample_nested_operation =
     JObj [(''requestBody'',
            JObj [(''content'',
                   JObj [(''application/json'',
                          JObj [(''schema'',
                                 JObj [(''type'', JStr ''object''),
                                       (''required'', JArr [JStr ''name'']),
                                       (''properties'',
                                        JObj [(''name'', JObj [(''type'', JStr ''string'')]),
                                              (''street'', JObj [(''type'', JStr ''string'')]),
                                              (''address'',
                                               JObj [(''$ref'',
                                                      JStr ''#/components/schemas/Address'')]),
                                              (''stops'',
                                               JObj [(''type'', JStr ''array''),
                                                     (''items'',
                                                      JObj [(''type'', JStr ''object''),
                                                            (''required'', JArr [JStr ''label'']),
                                                            (''properties'',
                                                             JObj [(''label'', JObj [(''type'', JStr ''string'')]),
                                                                   (''note'', JObj [(''type'', JStr ''string'')])])])])])])])])])]"

definition sample_nested_shape :: "(string \<times> zod) list" where
  "sample_nested_shape =
     [(''name'', ZString), (''street'', ZOptional ZString),
      (''address'',
       ZOptional (ZObject [(''street'', ZString), (''name'', ZOptional ZString),
                           (''geo'',
                            ZOptional (ZObject [(''lat'', ZNumber),
                                                (''lon'', ZOptional ZNumber)]))])),
      (''stops'',
       ZOptional (ZArray (ZObject [(''label'', ZString), (''note'', ZOptional ZString)])))]"

section \<open>Properties\<close>

lemma split_from_no_sep:
  "\<not> occurs ''::'' s \<Longrightarrow> split_from ''::'' cur s = [cur @ s]"
  by (induction s arbitrary: cur) auto

lemma split_from_component:
  "\<not> occurs ''::'' a \<Longrightarrow> \<not> ends_with_colon a \<Longrightarrow>
   split_from ''::'' cur (a @ CHR '':'' # CHR '':'' # rest)
     = (cur @ a) # split_from ''::'' [] rest"
proof (induction a arbitrary: cur)
  case Nil
  then show ?case by simp
next
  case (Cons c cs)
  have tl_ok: "\<not> occurs ''::'' cs" "\<not> ends_with_colon cs"
    using Cons.prems by (auto simp: ends_with_colon_def split: if_splits)
  have no_prefix: "\<not> prefix ''::'' (c # cs @ CHR '':'' # CHR '':'' # rest)"
  proof (cases cs)
    case Nil
    then show ?thesis using Cons.prems by (simp add: ends_with_colon_def)
  next
    case (Cons d ds)
    then show ?thesis using Cons.prems by auto
  qed
  show ?case
    using no_prefix Cons.IH [OF tl_ok, of "cur @ [c]"] by simp
qed

text \<open>
  C9 (as amended). For a project descriptor whose four components contain no \<open>::\<close> and
  whose first three components do not end in a colon, splitting the encoded selector value
  on \<open>::\<close> gives back the four components in order.
\<close>

theorem project_value_roundtrip:
  assumes "\<not> occurs ''::'' (p_projectId p)" "\<not> occurs ''::'' (p_specUrl p)"
    and "\<not> occurs ''::'' (p_editorBaseUrl p)" "\<not> occurs ''::'' (p_projectName p)"
    and "\<not> ends_with_colon (p_projectId p)" "\<not> ends_with_colon (p_specUrl p)"
    and "\<not> ends_with_colon (p_editorBaseUrl p)"
  shows "js_split ''::'' (project_value p)
           = [p_projectId p, p_specUrl p, p_editorBaseUrl p, p_projectName p]"
  using assms
  by (simp add: js_split_def project_value_def split_from_component split_from_no_sep
      del: split_from.simps)

theorem project_value_roundtrip_witness:
  "js_split ''::'' (project_value \<lparr>p_projectId = ''p1'', p_projectName = ''Demo'',
       p_specUrl = ''https://lab.leapter.com/spec'', p_editorBaseUrl = ''https://lab.leapter.com/e''\<rparr>)
     = [''p1'', ''https://lab.leapter.com/spec'', ''https://lab.leapter.com/e'', ''Demo'']"
  using project_value_roundtrip [of "\<lparr>p_projectId = ''p1'', p_projectName = ''Demo'',
       p_specUrl = ''https://lab.leapter.com/spec'', p_editorBaseUrl = ''https://lab.leapter.com/e''\<rparr>"]
  by (simp add: ends_with_colon_def)

text \<open>
  The claim as stated asks only that no component contains \<open>::\<close>. The project identifier
  \<open>a:\<close> contains none, yet the encoded value \<open>a:::b::c::d\<close> splits at the leftmost
  \<open>::\<close> into \<open>a\<close>, \<open>:b\<close>, \<open>c\<close>, \<open>d\<close>.
\<close>

theorem project_value_roundtrip_counterexample:
  "\<not> occurs ''::'' ''a:'' \<and> \<not> occurs ''::'' ''b'' \<and> \<not> occurs ''::'' ''c''
   \<and> \<not> occurs ''::'' ''d''
   \<and> js_split ''::'' (project_value \<lparr>p_projectId = ''a:'', p_projectName = ''d'',
          p_specUrl = ''b'', p_editorBaseUrl = ''c''\<rparr>) = [''a'', '':b'', ''c'', ''d'']
   \<and> js_split ''::'' (project_value \<lparr>p_projectId = ''a:'', p_projectName = ''d'',
          p_specUrl = ''b'', p_editorBaseUrl = ''c''\<rparr>) \<noteq> [''a:'', ''b'', ''c'', ''d'']"
  by (simp add: js_split_def project_value_def)

subsection \<open>Tool names\<close>

lemma spec_underscore_runs_skip:
  "spec_underscore_runs True cs = spec_underscore_runs False (dropWhile is_space cs)"
  by (induction cs) auto

lemma spec_underscore_runs_eq: "spec_underscore_runs False cs = replace_space_runs cs"
  by (induction cs rule: replace_space_runs.induct) (auto simp: spec_underscore_runs_skip)

lemma sanitize_refines: "sanitizeToolName name = spec_sanitize name"
  by (simp add: sanitizeToolName_def spec_sanitize_def toLowerCase_def
      spec_underscore_runs_eq)

subsection \<open>Visual-mode values\<close>

lemma prefix_single: "prefix [a] t \<longleftrightarrow> t \<noteq> [] \<and> hd t = a"
  by (cases t) auto

lemma suffix_single: "suffix [b] t \<longleftrightarrow> t \<noteq> [] \<and> last t = b"
  by (cases t rule: rev_cases) (auto simp: suffix_def)

lemma looks_like_json:
  "((startsWith t ''['' \<and> endsWith t '']'') \<or> (startsWith t ''{'' \<and> endsWith t ''}''))
     \<longleftrightarrow> spec_bracketed t"
proof -
  have "2 \<le> length t" if "t \<noteq> []" "hd t \<noteq> last t"
    using that by (cases t; cases "tl t") auto
  then show ?thesis
    unfolding startsWith_def endsWith_def prefix_single suffix_single spec_bracketed_def
    by auto
qed

lemma dedup_entries_Cons: "map (\<lambda>i. spec_dedup_entry (earlier @ take i (name # names)) ((name # names) ! i))
                 [0..<length (name # names)]
               = spec_dedup_entry earlier name
                 # map (\<lambda>i. spec_dedup_entry ((earlier @ [name]) @ take i names) (names ! i))
                     [0..<length names]"
proof -
  have "[0..<length (name # names)] = 0 # map Suc [0..<length names]"
    by (simp add: upt_conv_Cons map_Suc_upt del: upt_Suc)
  then show ?thesis by (simp add: comp_def)
qed

lemma sanitize_example: "sanitizeToolName ''My Blueprint!'' = ''my_blueprint''"
  by code_simp

lemma sanitize_run: "sanitizeToolName ''Run'' = ''run''" "sanitizeToolName ''run'' = ''run''"
  by code_simp+

lemma dedup_run_run: "deduplicateToolNames [''run'', ''run''] = [''run'', ''run_1'']"
  by code_simp

lemma dedup_loop_spec:
  "(\<And>n. (case counts n of Some c \<Rightarrow> c | None \<Rightarrow> 0) = count_list earlier n) \<Longrightarrow>
   dedup_loop counts result names
     = result @ map (\<lambda>i. spec_dedup_entry (earlier @ take i names) (names ! i))
                  [0..<length names]"
proof (induction names arbitrary: counts result earlier)
  case Nil
  then show ?case by simp
next
  case (Cons name names)
  let ?count = "case counts name of Some c \<Rightarrow> c | None \<Rightarrow> 0"
  have count: "?count = count_list earlier name"
    using Cons.prems by simp
  have inv: "(case (counts(name \<mapsto> ?count + 1)) n of Some c \<Rightarrow> c | None \<Rightarrow> 0)
               = count_list (earlier @ [name]) n" for n
    using Cons.prems [of n] by simp
  have step: "dedup_loop counts result (name # names)
          = dedup_loop (counts(name \<mapsto> ?count + 1)) (result @ [spec_dedup_entry earlier name]) names"
    using count by (simp add: spec_dedup_entry_def Let_def)
  have "dedup_loop (counts(name \<mapsto> ?count + 1)) (result @ [spec_dedup_entry earlier name]) names
          = (result @ [spec_dedup_entry earlier name])
            @ map (\<lambda>i. spec_dedup_entry ((earlier @ [name]) @ take i names) (names ! i))
                [0..<length names]"
    by (rule Cons.IH [OF inv])
  then show ?case
    unfolding dedup_entries_Cons step by simp
qed

lemma dedup_spec:
  "deduplicateToolNames ns = map (\<lambda>i. spec_dedup_entry (take i ns) (ns ! i)) [0..<length ns]"
  unfolding deduplicateToolNames_def
  using dedup_loop_spec [where counts = Map.empty and earlier = "[]" and result = "[]"
      and names = ns]
  by simp

text \<open>
  C7. \<open>sanitizeToolName\<close> is the pipeline of the specification (lower-case, one underscore
  per whitespace run, strip everything outside \<open>[a-z0-9_-]\<close>, keep 64 characters, fall back to
  \<open>leapter_tool\<close>), and maps \<open>My Blueprint!\<close> to \<open>my_blueprint\<close>. \<open>deduplicateToolNames\<close>
  keeps the length of the list; a name with no earlier occurrence stays as it is, and a name
  with \<open>c > 0\<close> earlier occurrences becomes the name followed by \<open>_c\<close>, cut to 64 characters;
  so \<open>run, run\<close> becomes \<open>run, run_1\<close>.
\<close>

theorem tool_names:
  "sanitizeToolName name = spec_sanitize name
   \<and> sanitizeToolName ''My Blueprint!'' = ''my_blueprint''
   \<and> length (deduplicateToolNames names) = length names
   \<and> (\<forall>i < length names.
        deduplicateToolNames names ! i = spec_dedup_entry (take i names) (names ! i))
   \<and> deduplicateToolNames [sanitizeToolName ''Run'', sanitizeToolName ''run''] = [''run'', ''run_1'']"
proof (intro conjI)
  show "sanitizeToolName name = spec_sanitize name"
    by (rule sanitize_refines)
  show "sanitizeToolName ''My Blueprint!'' = ''my_blueprint''"
    by (rule sanitize_example)
  show "length (deduplicateToolNames names) = length names"
    by (simp add: dedup_spec)
  show "\<forall>i < length names.
          deduplicateToolNames names ! i = spec_dedup_entry (take i names) (names ! i)"
    by (simp add: dedup_spec del: upt_Suc)
  show "deduplicateToolNames [sanitizeToolName ''Run'', sanitizeToolName ''run'']
          = [''run'', ''run_1'']"
    unfolding sanitize_run by (rule dedup_run_run)
qed

theorem tool_names_witness:
  "deduplicateToolNames [''a'', ''b'', ''a'', ''a''] ! 3 = ''a_2''"
proof -
  have "(3::nat) < length [''a'', ''b'', ''a'', ''a'']" by simp
  moreover have "spec_dedup_entry (take 3 [''a'', ''b'', ''a'', ''a'']) ([''a'', ''b'', ''a'', ''a''] ! 3)
           = ''a_2''"
    by code_simp
  ultimately show ?thesis
    using tool_names [of "''x''" "[''a'', ''b'', ''a'', ''a'']"] by metis
qed

text \<open>
  C8. \<open>tryParseJson\<close> never raises. A value that is not a string comes back unchanged; a
  string whose trimmed form starts and ends with matching \<open>[ ]\<close> or \<open>{ }\<close> comes back parsed
  when \<open>JSON.parse\<close> succeeds on the trimmed form and as the original string when it throws;
  every other string comes back unchanged.
\<close>

theorem tryParseJson_total:
  "tryParseJson parse v =
     Inr (case v of
            JStr s \<Rightarrow>
              if spec_bracketed (js_trim s)
              then (case parse (js_trim s) of Inr parsed \<Rightarrow> parsed | Inl e \<Rightarrow> JStr s)
              else JStr s
          | _ \<Rightarrow> v)"
  by (cases v) (simp_all add: tryParseJson_def Let_def looks_like_json try_catch_def
      split: sum.splits)

lemma trim_examples: "js_trim '' [] '' = ''[]''" "js_trim ''[1,'' = ''[1,''" "js_trim ''{1]'' = ''{1]''"
   "js_trim ''[1,]'' = ''[1,]''"
  by code_simp+

theorem tryParseJson_total_witness:
  "tryParseJson (\<lambda>s. if s = ''[]'' then Inr (JArr []) else Inl SyntaxError) (JStr '' [] '')
     = Inr (JArr [])
   \<and> tryParseJson (\<lambda>s. if s = ''[]'' then Inr (JArr []) else Inl SyntaxError) (JStr ''[1,'')
     = Inr (JStr ''[1,'')
   \<and> tryParseJson (\<lambda>s. if s = ''[]'' then Inr (JArr []) else Inl SyntaxError) (JStr ''{1]'')
     = Inr (JStr ''{1]'')
   \<and> tryParseJson (\<lambda>s. if s = ''[]'' then Inr (JArr []) else Inl SyntaxError) (JStr ''[1,]'')
     = Inr (JStr ''[1,]'')"
  using tryParseJson_total [of "\<lambda>s. if s = ''[]'' then Inr (JArr []) else Inl SyntaxError"]
  by (simp add: spec_bracketed_def trim_examples)

subsection \<open>Schema resolution\<close>

lemma walk_append:
  "walk v (xs @ ys) = (case walk v xs of Inl e \<Rightarrow> Inl e | Inr w \<Rightarrow> walk w ys)"
  by (induction xs arbitrary: v) (auto split: sum.splits)

lemma walk_undefined: "walk JUndefined ks = (if ks = [] then Inr JUndefined else Inl TypeError)"
  by (cases ks) auto

text \<open>
  C2 (as amended). The code has no dangling-reference error. When the keys of a \<open>$ref\<close> lead,
  through own properties, to an object that lacks the next key (and the key is no inherited
  member), \<open>resolveSchema\<close> returns \<open>undefined\<close> without raising if that key is the last one of
  the path, and raises the engine's \<open>TypeError\<close> if further keys follow.
\<close>

theorem resolveSchema_dangling:
  assumes "get_prop schema ''$ref'' = Inr (JStr r)" and "r \<noteq> []"
    and "js_split ''/'' (replace_first ''#/'' [] r) = found @ [k] @ rest"
    and "walk spec found = Inr (JObj kvs)"
    and "map_of kvs k = None" and "k \<notin> set Object_prototype_members"
  shows "resolveSchema schema spec = (if rest = [] then Inr JUndefined else Inl TypeError)"
  using assms by (simp add: resolveSchema_def walk_append walk_undefined)

theorem resolveSchema_dangling_witness:
  "resolveSchema (JObj [(''$ref'', JStr ''#/components/schemas/Foo/properties'')])
     (JObj [(''components'', JObj [(''schemas'', JObj [(''Bar'', JObj [])])])])
   = Inl TypeError"
proof -
  have h1: "get_prop (JObj [(''$ref'', JStr ''#/components/schemas/Foo/properties'')]) ''$ref''
              = Inr (JStr ''#/components/schemas/Foo/properties'')"
    by simp
  have h2: "''#/components/schemas/Foo/properties'' \<noteq> []"
    by simp
  have h3: "js_split ''/'' (replace_first ''#/'' [] ''#/components/schemas/Foo/properties'')
              = [''components'', ''schemas''] @ [''Foo''] @ [''properties'']"
    by code_simp
  have h4: "walk (JObj [(''components'', JObj [(''schemas'', JObj [(''Bar'', JObj [])])])])
              [''components'', ''schemas''] = Inr (JObj [(''Bar'', JObj [])])"
    by simp
  have h5: "map_of [(''Bar'', JObj [])] ''Foo'' = None"
    by simp
  have h6: "''Foo'' \<notin> set Object_prototype_members"
    by (simp add: Object_prototype_members_def)
  show ?thesis
    using resolveSchema_dangling [OF h1 h2 h3 h4 h5 h6] by simp
qed

text \<open>
  The reference \<open>#/components/schemas/Foo\<close> points to a key the document does not have, and
  the node resolves to \<open>undefined\<close>: nothing is raised.
\<close>

theorem resolveSchema_dangling_counterexample:
  "map_of [(''Bar'', JObj [])] ''Foo'' = None
   \<and> resolveSchema (JObj [(''$ref'', JStr ''#/components/schemas/Foo'')])
       (JObj [(''components'', JObj [(''schemas'', JObj [(''Bar'', JObj [])])])])
     = Inr JUndefined"
  by code_simp

subsection \<open>Response classification\<close>

lemma metadata_field_update:
  "metadata_field (Item (JObj (AList.update ''_metadata'' m kvs)) i) k = get_prop_opt m k"
  by (simp add: metadata_field.simps update_conv')

lemma run_id_object: "run_id (JObj hs) = Inr (two_spellings hs)"
  by (simp add: run_id_def header_def two_spellings_def)

lemma header_absent: "name \<notin> fst ` set hs \<Longrightarrow> header hs name = JUndefined"
  by (simp add: header_def map_of_eq_None_iff [THEN iffD2])

lemma tool_respond_success:
  assumes "get_prop response ''statusCode'' = Inr raw" and "status_or_200 raw = Inr status"
    and "status < 400" and "get_prop_opt response ''headers'' = JObj hs"
  shows "tool_respond matched base i response
           = Inr (Item (JObj (AList.update ''_metadata''
                    (JObj [(''runId'', two_spellings hs),
                           (''editorLink'',
                            JStr (tool_editor_link (match_model_id (bp_path matched)) base))])
                    (spread [] (if is_object (get_prop_opt response ''body'')
                                then get_prop_opt response ''body''
                                else JObj [(''result'', get_prop_opt response ''body'')])))) i)"
  using assms by (simp add: tool_respond_def run_id_object Let_def)

lemma leapter_respond_success:
  assumes "leapter_unpack parse response = Inr (body, JObj hs, status)" and "status < 400"
  shows "leapter_respond parse cont modelId base i response
           = Inr (Item (JObj (AList.update ''_metadata''
                    (JObj [(''runId'', two_spellings hs),
                           (''editorLink'', leapter_editor_link modelId base)])
                    (spread [] body))) i)"
  using assms by (simp add: leapter_respond_def run_id_object)

text \<open>
  C3 (as amended). For a response with status below 400, in both nodes, the \<open>runId\<close> of
  \<open>_metadata\<close> is the value of the header object under the name \<open>x-run-id\<close> when that is
  truthy, and otherwise the value under the name \<open>X-Run-Id\<close>: a run identifier that arrives
  under either of these two spellings is extracted, and a header object with neither name
  gives \<open>undefined\<close>.
\<close>

theorem run_id_two_spellings:
  "status < 400 \<Longrightarrow>
   (get_prop response ''statusCode'' = Inr raw \<and> status_or_200 raw = Inr status
      \<and> get_prop_opt response ''headers'' = JObj hs
    \<longrightarrow> (\<exists>out. tool_respond matched base i response = Inr out
           \<and> metadata_field out ''runId'' = two_spellings hs))
   \<and> (leapter_unpack parse response = Inr (body, JObj hs, status)
    \<longrightarrow> (\<exists>out. leapter_respond parse cont modelId base i response = Inr out
           \<and> metadata_field out ''runId'' = two_spellings hs))
   \<and> (v \<noteq> [] \<longrightarrow> two_spellings [(''x-run-id'', JStr v)] = JStr v
                  \<and> two_spellings [(''X-Run-Id'', JStr v)] = JStr v)
   \<and> (''x-run-id'' \<notin> fst ` set hs \<and> ''X-Run-Id'' \<notin> fst ` set hs
    \<longrightarrow> two_spellings hs = JUndefined)"
proof (intro conjI impI)
  assume "status < 400"
    and "get_prop response ''statusCode'' = Inr raw \<and> status_or_200 raw = Inr status
         \<and> get_prop_opt response ''headers'' = JObj hs"
  then show "\<exists>out. tool_respond matched base i response = Inr out
           \<and> metadata_field out ''runId'' = two_spellings hs"
    by (simp add: tool_respond_success metadata_field_update)
next
  assume "status < 400" and "leapter_unpack parse response = Inr (body, JObj hs, status)"
  then show "\<exists>out. leapter_respond parse cont modelId base i response = Inr out
           \<and> metadata_field out ''runId'' = two_spellings hs"
    by (simp add: leapter_respond_success metadata_field_update)
next
  assume "v \<noteq> []"
  then show "two_spellings [(''x-run-id'', JStr v)] = JStr v"
    and "two_spellings [(''X-Run-Id'', JStr v)] = JStr v"
    by (simp_all add: two_spellings_def header_def)
next
  assume "''x-run-id'' \<notin> fst ` set hs \<and> ''X-Run-Id'' \<notin> fst ` set hs"
  then show "two_spellings hs = JUndefined"
    by (simp add: two_spellings_def header_absent)
qed

theorem run_id_two_spellings_witness:
  "(\<exists>out. tool_respond \<lparr>bp_name = ''summarizer'', bp_path = ''/models/summarizer/runs'',
                bp_operationUrl = ''https://api/models/summarizer/runs'', bp_schemaKeys = []\<rparr>
             (Some ''https://e'') 0
             (JObj [(''body'', JObj [(''answer'', JNum 42)]),
                    (''headers'', JObj [(''x-run-id'', JStr ''abc123'')]),
                    (''statusCode'', JNum 200)]) = Inr out
          \<and> metadata_field out ''runId'' = JStr ''abc123'')
   \<and> (\<exists>out. leapter_respond (\<lambda>s. Inl SyntaxError) False (Some ''summarizer'') (Some ''https://e'') 0
             (JObj [(''body'', JObj [(''answer'', JNum 42)]),
                    (''headers'', JObj [(''x-run-id'', JStr ''abc123'')]),
                    (''statusCode'', JNum 200)]) = Inr out
          \<and> metadata_field out ''runId'' = JStr ''abc123'')"
  using run_id_two_spellings [where status = 200 and raw = "JNum 200"
      and hs = "[(''x-run-id'', JStr ''abc123'')]" and v = "''abc123''"
      and base = "Some ''https://e''" and i = 0 and cont = False and modelId = "Some ''summarizer''"
      and matched = "\<lparr>bp_name = ''summarizer'', bp_path = ''/models/summarizer/runs'',
                bp_operationUrl = ''https://api/models/summarizer/runs'', bp_schemaKeys = []\<rparr>"
      and body = "JObj [(''answer'', JNum 42)]" and parse = "\<lambda>s. Inl SyntaxError"
      and response = "JObj [(''body'', JObj [(''answer'', JNum 42)]),
                    (''headers'', JObj [(''x-run-id'', JStr ''abc123'')]),
                    (''statusCode'', JNum 200)]"]
  by (auto simp: status_or_200_def leapter_unpack_def)

text \<open>
  A response whose run identifier arrives under the spelling \<open>X-RUN-ID\<close> (the same name up to
  case) gets no \<open>runId\<close>, in either node.
\<close>

theorem run_id_two_spellings_counterexample:
  "toLowerCase ''X-RUN-ID'' = ''x-run-id''
   \<and> tool_respond \<lparr>bp_name = ''summarizer'', bp_path = ''/models/summarizer/runs'',
                bp_operationUrl = ''https://api/models/summarizer/runs'', bp_schemaKeys = []\<rparr>
             (Some ''https://e'') 0
             (JObj [(''body'', JObj [(''answer'', JNum 42)]),
                    (''headers'', JObj [(''X-RUN-ID'', JStr ''abc123'')]),
                    (''statusCode'', JNum 200)])
       = Inr (Item (JObj [(''answer'', JNum 42),
                          (''_metadata'', JObj [(''runId'', JUndefined),
                              (''editorLink'', JStr ''https://e/summarizer'')])]) 0)
   \<and> leapter_respond (\<lambda>s. Inl SyntaxError) False (Some ''summarizer'') (Some ''https://e'') 0
             (JObj [(''body'', JObj [(''answer'', JNum 42)]),
                    (''headers'', JObj [(''X-RUN-ID'', JStr ''abc123'')]),
                    (''statusCode'', JNum 200)])
       = Inr (Item (JObj [(''answer'', JNum 42),
                          (''_metadata'', JObj [(''runId'', JUndefined),
                              (''editorLink'', JStr ''https://e/summarizer'')])]) 0)"
  by code_simp

subsection \<open>Editor links\<close>










subsection \<open>Failure messages\<close>

lemma get_prop_defined: "b \<noteq> JUndefined \<Longrightarrow> b \<noteq> JNull \<Longrightarrow> get_prop b k = Inr (get_prop_opt b k)"
  by (cases b) simp_all

lemma error_message_chain:
  assumes "b \<noteq> JUndefined" and "b \<noteq> JNull"
  shows "error_message b n = Inr (spec_first_truthy (message_fields b) (generic_message n))"
  by (simp add: error_message_def get_prop_defined [OF assms] spec_first_truthy_def
      message_fields_def generic_message_def)

lemma error_body_defined:
  "(if is_object b then b else JObj []) \<noteq> JUndefined \<and> (if is_object b then b else JObj []) \<noteq> JNull"
  by (cases b) simp_all

text \<open>
  What leaves the Leapter node is not the error thrown inside its \<open>try\<close> block: the \<open>catch\<close>
  of the node receives that error too and, when the node does not continue on failure, throws
  a new one whose message is \<open>Blueprint execution failed: \<close> followed by the message caught.
  The Leapter Tool node rethrows a \<open>NodeOperationError\<close> as it is.
\<close>

lemma leapter_catch_wraps:
  "leapter_execute_item parse http False executionId operation inputMode parameters
       parametersJson options i \<noteq> Inl (OperationError m)"
  by (simp add: leapter_execute_item_def split: sum.splits error.splits)

lemma leapter_catch_wraps_thrown:
  "leapter_try parse http False executionId operation inputMode parameters parametersJson
       options i = Inl (OperationError m) \<Longrightarrow>
   leapter_execute_item parse http False executionId operation inputMode parameters
       parametersJson options i = Inl (ExecutionFailed (OperationError m))"
  by (simp add: leapter_execute_item_def)

lemma tool_catch_rethrows: "tool_catch (OperationError m) = OperationError m"
  by simp

text \<open>On a 404 response with body \<open>{"detail": "not found"}\<close> the error that leaves the Leapter
  node has the message \<open>Blueprint execution failed: not found\<close>.\<close>

lemma leapter_catch_wraps_sample:
  "leapter_execute_item (\<lambda>s. if s = ''{}'' then Inr (JObj []) else Inl SyntaxError)
     (\<lambda>req. Inr (JObj [(''body'', JObj [(''detail'', JStr ''not found'')]), (''headers'', JObj []),
             (''statusCode'', JNum 404)])) False (Some ''exec1'')
     ''post::/models/summarizer/runs::https://api/models/summarizer/runs::https://e''
     ''json'' JUndefined ''{}'' \<lparr>opt_referer = None, opt_timeout = None\<rparr> 0
   = Inl (ExecutionFailed (OperationError ''not found''))"
  by code_simp

text \<open>
  C5 (as amended). For a response with status 400 or more, the error message is the first
  truthy one of the body's \<open>detail\<close>, \<open>error\<close> and \<open>message\<close> fields (a field that is present
  but empty, null, zero or false is passed over), else \<open>Request failed with status N\<close>. The
  Leapter Tool node pushes the record with exactly this message and the status code, reading
  the fields of the body when it is an object and of \<open>{}\<close> otherwise. In the Leapter node, on
  a body that is neither \<open>undefined\<close> nor \<open>null\<close> and when the node does not continue on
  failure, the statement \<open>throw new NodeOperationError(this.getNode(), errorMessage, ...)\<close>
  inside the \<open>try\<close> block is reached with this message (\<open>leapter_respond\<close> is the part of the
  \<open>try\<close> block that follows the request). The statement is about that throw only, and not
  about the error that leaves the node, which is the one of its \<open>catch\<close>.
\<close>

theorem failure_message:
  "400 \<le> status \<Longrightarrow>
   (get_prop response ''statusCode'' = Inr raw \<and> status_or_200 raw = Inr status
    \<longrightarrow> tool_respond matched base i response
          = Inr (Item (JObj [(''error'',
                              spec_first_truthy
                                (message_fields (if is_object (get_prop_opt response ''body'')
                                                 then get_prop_opt response ''body'' else JObj []))
                                (generic_message status)),
                             (''statusCode'', JNum (of_nat status))]) i))
   \<and> (leapter_unpack parse response = Inr (body, headers, status)
         \<and> body \<noteq> JUndefined \<and> body \<noteq> JNull
         \<and> spec_first_truthy (message_fields body) (generic_message status) = JStr m
    \<longrightarrow> leapter_respond parse False modelId base i response = Inl (OperationError m))"
proof (intro conjI impI)
  assume "400 \<le> status"
    and "get_prop response ''statusCode'' = Inr raw \<and> status_or_200 raw = Inr status"
  then show "tool_respond matched base i response
          = Inr (Item (JObj [(''error'',
                              spec_first_truthy
                                (message_fields (if is_object (get_prop_opt response ''body'')
                                                 then get_prop_opt response ''body'' else JObj []))
                                (generic_message status)),
                             (''statusCode'', JNum (of_nat status))]) i)"
    using error_body_defined [of "get_prop_opt response ''body''"]
    by (simp add: tool_respond_def Let_def error_message_chain)
next
  assume "400 \<le> status"
    and "leapter_unpack parse response = Inr (body, headers, status)
         \<and> body \<noteq> JUndefined \<and> body \<noteq> JNull
         \<and> spec_first_truthy (message_fields body) (generic_message status) = JStr m"
  then show "leapter_respond parse False modelId base i response = Inl (OperationError m)"
    by (simp add: leapter_respond_def error_message_chain)
qed

theorem failure_message_witness:
  "tool_respond \<lparr>bp_name = ''summarizer'', bp_path = ''/models/summarizer/runs'',
                bp_operationUrl = ''https://api/models/summarizer/runs'', bp_schemaKeys = []\<rparr>
      (Some ''https://e'') 0
      (JObj [(''body'', JObj [(''detail'', JStr ''not found'')]), (''headers'', JObj []),
             (''statusCode'', JNum 404)])
     = Inr (Item (JObj [(''error'', JStr ''not found''), (''statusCode'', JNum 404)]) 0)
   \<and> leapter_respond (\<lambda>s. Inl SyntaxError) False (Some ''summarizer'') (Some ''https://e'') 0
      (JObj [(''body'', JObj [(''detail'', JStr ''not found'')]), (''headers'', JObj []),
             (''statusCode'', JNum 404)])
     = Inl (OperationError ''not found'')"
proof -
  let ?response = "JObj [(''body'', JObj [(''detail'', JStr ''not found'')]), (''headers'', JObj []),
             (''statusCode'', JNum 404)]"
  have status: "(400::nat) \<le> 404"
    by simp
  have full: "get_prop ?response ''statusCode'' = Inr (JNum 404)
              \<and> status_or_200 (JNum 404) = Inr 404"
    by (simp add: status_or_200_def)
  have unpack: "leapter_unpack (\<lambda>s. Inl SyntaxError) ?response
                  = Inr (JObj [(''detail'', JStr ''not found'')], JObj [], 404)
                \<and> JObj [(''detail'', JStr ''not found'')] \<noteq> JUndefined
                \<and> JObj [(''detail'', JStr ''not found'')] \<noteq> JNull
                \<and> spec_first_truthy (message_fields (JObj [(''detail'', JStr ''not found'')]))
                     (generic_message 404) = JStr ''not found''"
    by (simp add: leapter_unpack_def status_or_200_def spec_first_truthy_def message_fields_def)
  note inst = failure_message [OF status, where i = 0 and base = "Some ''https://e''"
      and modelId = "Some ''summarizer''"]
  show ?thesis
    using inst [THEN conjunct1, rule_format, OF full] inst [THEN conjunct2, rule_format, OF unpack]
    by (simp add: spec_first_truthy_def message_fields_def)
qed

text \<open>
  The body \<open>{"detail": "", "error": "boom"}\<close> has a \<open>detail\<close> field, and the message is that
  of its \<open>error\<close> field.
\<close>

theorem failure_message_counterexample:
  "map_of [(''detail'', JStr []), (''error'', JStr ''boom'')] ''detail'' = Some (JStr [])
   \<and> tool_respond \<lparr>bp_name = ''summarizer'', bp_path = ''/models/summarizer/runs'',
                bp_operationUrl = ''https://api/models/summarizer/runs'', bp_schemaKeys = []\<rparr>
      (Some ''https://e'') 0
      (JObj [(''body'', JObj [(''detail'', JStr []), (''error'', JStr ''boom'')]),
             (''headers'', JObj []), (''statusCode'', JNum 500)])
     = Inr (Item (JObj [(''error'', JStr ''boom''), (''statusCode'', JNum 500)]) 0)"
  by code_simp

subsection \<open>Routing\<close>

lemma first_max_exists:
  assumes "xs \<noteq> []"
  shows "\<exists>x \<in> set xs. \<forall>y \<in> set xs. f y \<le> (f x :: rat)"
proof -
  have "finite (f ` set xs)" "f ` set xs \<noteq> {}"
    using assms by simp_all
  then have "Max (f ` set xs) \<in> f ` set xs" and "\<forall>v \<in> f ` set xs. v \<le> Max (f ` set xs)"
    by (simp_all add: Max_in)
  then show ?thesis
    by (metis (no_types, lifting) image_iff)
qed

lemma first_max_None: "spec_first_max f xs = None \<longleftrightarrow> xs = []"
proof
  assume "spec_first_max f xs = None"
  then have "\<not> (\<exists>x \<in> set xs. \<forall>y \<in> set xs. f y \<le> f x)"
    by (simp add: spec_first_max_def find_None_iff)
  then show "xs = []"
    using first_max_exists [of xs f] by blast
next
  assume "xs = []"
  then show "spec_first_max f xs = None"
    by (simp add: spec_first_max_def)
qed

lemma first_max_Some:
  "spec_first_max f xs = Some c \<Longrightarrow> c \<in> set xs \<and> (\<forall>y \<in> set xs. f y \<le> f c)"
  by (auto simp: spec_first_max_def find_Some_iff)

lemma first_max_Cons:
  "spec_first_max f (x # xs)
     = (case spec_first_max f xs of
          None \<Rightarrow> Some x
        | Some c \<Rightarrow> if f x < f c then Some c else Some x)"
proof (cases "spec_first_max f xs")
  case None
  then have "xs = []" by (simp add: first_max_None)
  then show ?thesis by (simp add: spec_first_max_def)
next
  case (Some c)
  note c = first_max_Some [OF Some]
  define P where "P = (\<lambda>z. \<forall>y \<in> set (x # xs). f y \<le> f z)"
  define Q where "Q = (\<lambda>z. \<forall>y \<in> set xs. f y \<le> f z)"
  have whole: "spec_first_max f (x # xs) = find P (x # xs)"
    and rest: "spec_first_max f xs = find Q xs"
    by (simp_all only: spec_first_max_def P_def Q_def)
  show ?thesis
  proof (cases "f x < f c")
    case True
    have "\<not> P x"
      using True c unfolding P_def by fastforce
    then have "find P (x # xs) = find P xs"
      by simp
    also have "find P xs = find Q xs"
    proof (rule find_cong [OF refl])
      fix z assume "z \<in> set xs"
      show "P z = Q z"
        using True c unfolding P_def Q_def by fastforce
    qed
    finally show ?thesis
      using Some True whole rest by simp
  next
    case False
    then have "P x"
      using c unfolding P_def by fastforce
    then have "find P (x # xs) = Some x"
      by simp
    then show ?thesis
      using Some False whole by simp
  qed
qed

lemma first_max_cong:
  "(\<And>x. x \<in> set xs \<Longrightarrow> f x = g x) \<Longrightarrow> spec_first_max f xs = spec_first_max g xs"
  unfolding spec_first_max_def by (rule find_cong) auto

lemma score_loop_first_max:
  "score_loop inputKeys bps best matched
     = (case spec_first_max (weighted_score inputKeys) (filter (\<lambda>c. bp_schemaKeys c \<noteq> []) bps) of
          None \<Rightarrow> matched
        | Some c \<Rightarrow> if best < weighted_score inputKeys c then Some c else matched)"
proof (induction bps arbitrary: best matched)
  case Nil
  then show ?case by (simp add: spec_first_max_def)
next
  case (Cons bp bps)
  show ?case
  proof (cases "bp_schemaKeys bp = []")
    case True
    then show ?thesis using Cons.IH by simp
  next
    case False
    let ?w = "weighted_score inputKeys bp"
    have step: "score_loop inputKeys (bp # bps) best matched
                  = (if best < ?w then score_loop inputKeys bps ?w (Some bp)
                     else score_loop inputKeys bps best matched)"
      using False by (simp add: weighted_score_def Let_def)
    show ?thesis
      unfolding step using False
      by (auto simp: Cons.IH first_max_Cons split: option.splits)
  qed
qed

lemma weighted_score_nonneg: "0 \<le> weighted_score inputKeys bp"
  by (simp add: weighted_score_def)

lemma weighted_score_spec:
  assumes "distinct (bp_schemaKeys c)"
  shows "weighted_score (remdups inputKeys) c = spec_score inputKeys c"
proof -
  have "length (filter (\<lambda>key. key \<in> set (bp_schemaKeys c)) (remdups inputKeys))
          = card (set inputKeys \<inter> set (bp_schemaKeys c))"
    by (simp add: distinct_length_filter Int_commute Collect_mem_eq)
  moreover have "length (bp_schemaKeys c) = card (set (bp_schemaKeys c))"
    using assms by (simp add: distinct_card)
  ultimately show ?thesis
    by (simp add: weighted_score_def spec_score_def)
qed

lemma route_refines:
  assumes "\<forall>c \<in> set candidates. distinct (bp_schemaKeys c)"
  shows "route (action_of input) toolArgs candidates
           = spec_route (map_of input ''action'') (map fst toolArgs) candidates"
proof -
  let ?scored = "filter (\<lambda>c. bp_schemaKeys c \<noteq> []) candidates"
  have by_action:
    "(if action_of input \<noteq> []
      then find (\<lambda>bp. bp_name bp = sanitizeToolName (action_of input)) candidates else None)
     = (case map_of input ''action'' of
          Some (JStr a) \<Rightarrow>
            if a \<noteq> [] then find (\<lambda>c. bp_name c = sanitizeToolName a) candidates else None
        | _ \<Rightarrow> None)"
    by (simp add: action_of_def split: option.splits jsval.splits)
  have "spec_first_max (weighted_score (remdups (map fst toolArgs))) ?scored
          = spec_first_max (spec_score (map fst toolArgs)) ?scored"
    using assms by (intro first_max_cong weighted_score_spec) simp
  then have scoring:
    "score_loop (remdups (map fst toolArgs)) candidates (- 1) None
       = spec_first_max (spec_score (map fst toolArgs)) ?scored"
    using weighted_score_nonneg [of "remdups (map fst toolArgs)"]
    by (auto simp: score_loop_first_max split: option.splits
        dest!: first_max_Some intro: less_le_trans [of "- 1" 0])
  show ?thesis
  proof (cases candidates)
    case Nil
    then show ?thesis
      unfolding route_def spec_route_def by_action
      by (simp add: spec_first_max_def split: option.splits jsval.splits)
  next
    case (Cons c cs)
    show ?thesis
    proof (cases cs)
      case Nil
      with Cons show ?thesis
        unfolding route_def spec_route_def by_action
        by (simp add: nth_opt_def split: option.splits jsval.splits)
    next
      case (Cons d ds)
      with \<open>candidates = c # cs\<close> have long: "candidates = c # d # ds" by simp
      show ?thesis
        unfolding route_def spec_route_def by_action Let_def
        using scoring unfolding long
        by (simp split: option.splits jsval.splits)
    qed
  qed
qed


lemma set_add_distinct: "distinct acc \<Longrightarrow> distinct (fold (\<lambda>key keys. set_add keys key) xs acc)"
  by (induction xs arbitrary: acc) (auto simp: set_add_def)

lemma schema_keys_distinct: "schema_keys operation spec = Inr ks \<Longrightarrow> distinct ks"
  using set_add_distinct [of "[]"]
  by (auto simp: schema_keys_def Let_def split: if_splits sum.splits)

lemma collect_blueprints_spec:
  "collect_blueprints spec serverUrl entries acc = Inr bps \<Longrightarrow>
   \<exists>new. bps = acc @ new
     \<and> list_all2 (candidate_of spec serverUrl) (filter (\<lambda>entry. is_candidate (snd entry)) entries) new"
proof (induction entries arbitrary: acc)
  case Nil
  then show ?case by simp
next
  case (Cons entry entries)
  obtain path pathItem where entry: "entry = (path, pathItem)"
    by (cases entry)
  from Cons.prems obtain operation where post: "get_prop pathItem ''post'' = Inr operation"
    unfolding entry by (auto split: sum.splits)
  then have operation: "operation = get_prop_opt pathItem ''post''"
    by (cases pathItem) auto
  show ?case
  proof (cases "is_candidate pathItem")
    case False
    then have "collect_blueprints spec serverUrl entries acc = Inr bps"
      using Cons.prems post unfolding entry is_candidate_def operation by simp
    from Cons.IH [OF this] show ?thesis
      using False unfolding entry by simp
  next
    case True
    then have go: "\<not> (\<not> truthy operation \<or> truthy (get_prop_opt operation ''deprecated''))"
      unfolding is_candidate_def operation by simp
    from Cons.prems post go obtain ks n
      where ks: "schema_keys operation spec = Inr ks"
        and n: "display_name path operation = JStr n"
        and rest: "collect_blueprints spec serverUrl entries
                     (acc @ [\<lparr>bp_name = sanitizeToolName n, bp_path = path,
                              bp_operationUrl = serverUrl @ path, bp_schemaKeys = ks\<rparr>]) = Inr bps"
      unfolding entry display_name_def
      by (auto split: sum.splits jsval.splits)
    let ?c = "\<lparr>bp_name = sanitizeToolName n, bp_path = path,
               bp_operationUrl = serverUrl @ path, bp_schemaKeys = ks\<rparr>"
    from Cons.IH [OF rest] obtain new
      where new: "bps = (acc @ [?c]) @ new"
        "list_all2 (candidate_of spec serverUrl)
           (filter (\<lambda>entry. is_candidate (snd entry)) entries) new"
      by blast
    have "candidate_of spec serverUrl (path, pathItem) ?c"
      using ks n unfolding candidate_of_def operation by simp
    then have "bps = acc @ (?c # new)
        \<and> list_all2 (candidate_of spec serverUrl)
            (filter (\<lambda>entry. is_candidate (snd entry)) ((path, pathItem) # entries)) (?c # new)"
      using new True by simp
    then show ?thesis
      unfolding entry by blast
  qed
qed

lemma candidate_of_distinct: "candidate_of spec serverUrl entry c \<Longrightarrow> distinct (bp_schemaKeys c)"
  unfolding candidate_of_def using schema_keys_distinct by blast

text \<open>
  C1 (as amended). When the specification has been fetched and the candidates collected,
  the candidates are the path items whose POST operation exists and is not deprecated, in
  the order of the document, each with its sanitized display name and the property names
  of its resolved request schema. The item is routed as follows: if the input carries a
  non-empty \<open>action\<close> string whose sanitized form is the name of a candidate, the first such
  candidate is selected; otherwise a single candidate is selected unconditionally; otherwise
  the candidates with a non-empty key set are scored by
  \<open>|input \<inter> keys| + |input \<inter> keys| / |keys|\<close> over the keys of the tool arguments, and the
  first candidate with the highest score is selected. The request goes to the selected
  candidate; if none is selected the item fails with the message that lists the names of
  all candidates.
\<close>

theorem tool_routing:
  assumes "nth_opt (js_split ''::'' projectValue) 1 = Some url"
    and "url \<noteq> []" and "startsWith url ''http''"
    and "http_get url = Inr spec" and "server_url spec = Inr serverUrl"
    and "get_prop spec ''paths'' = Inr paths" and "object_entries paths = Inr entries"
    and "collect_blueprints spec serverUrl entries [] = Inr candidates"
  shows "list_all2 (candidate_of spec serverUrl)
           (filter (\<lambda>entry. is_candidate (snd entry)) entries) candidates
       \<and> tool_request http_get executionId projectValue input
           = (case spec_route (map_of input ''action'') (map fst (tool_args input)) candidates of
                Some c \<Rightarrow>
                  Inr (c, nth_opt (js_split ''::'' projectValue) 2,
                       \<lparr>req_method = ''POST'', req_url = Some (bp_operationUrl c),
                        req_headers = [(''X-Correlation-Id'', executionId),
                                       (''Content-Type'', ''application/json'')],
                        req_body = JObj (tool_args input), req_timeout = JUndefined\<rparr>)
              | None \<Rightarrow>
                  Inl (OperationError
                        (''No blueprint matched the input arguments: ''
                           @ stringify_keys (map fst (tool_args input)) @ ''. ''
                           @ ''Available blueprints: '' @ join '', '' (map bp_name candidates))))"
proof -
  from collect_blueprints_spec [OF assms(8)]
  have cands: "list_all2 (candidate_of spec serverUrl)
                 (filter (\<lambda>entry. is_candidate (snd entry)) entries) candidates"
    by simp
  have "\<forall>c \<in> set candidates. distinct (bp_schemaKeys c)"
  proof
    fix c assume "c \<in> set candidates"
    then obtain i where "i < length candidates" "candidates ! i = c"
      by (auto simp: in_set_conv_nth)
    with cands have "candidate_of spec serverUrl
                       (filter (\<lambda>entry. is_candidate (snd entry)) entries ! i) c"
      by (auto simp: list_all2_conv_all_nth)
    then show "distinct (bp_schemaKeys c)"
      by (rule candidate_of_distinct)
  qed
  then have route: "route (action_of input) (tool_args input) candidates
           = spec_route (map_of input ''action'') (map fst (tool_args input)) candidates"
    by (rule route_refines)
  have "tool_request http_get executionId projectValue input
          = (case route (action_of input) (tool_args input) candidates of
               None \<Rightarrow> Inl (OperationError (no_match_message (tool_args input) candidates))
             | Some c \<Rightarrow>
                 Inr (c, nth_opt (js_split ''::'' projectValue) 2,
                       \<lparr>req_method = ''POST'', req_url = Some (bp_operationUrl c),
                        req_headers = [(''X-Correlation-Id'', executionId),
                                       (''Content-Type'', ''application/json'')],
                        req_body = JObj (tool_args input), req_timeout = JUndefined\<rparr>))"
    using assms by (simp add: tool_request_def Let_def)
  then show ?thesis
    using cands unfolding route no_match_message_def by (simp split: option.splits)
qed


theorem tool_routing_witness:
  "tool_request (\<lambda>u. Inr (sample_spec ''Weather'')) ''exec1'' sample_project
     [(''city'', JStr ''Paris'')]
   = Inr (sample_candidate ''weather'' ''weather'' ''city'', Some ''https://lab.leapter.test/e'',
          sample_request ''weather'' [(''city'', JStr ''Paris'')])"
proof -
  let ?entries = "[(''/models/weather/runs'', sample_operation ''Weather'' ''city''),
                   (''/models/search/runs'', sample_operation ''Search'' ''query'')]"
  let ?candidates = "[sample_candidate ''weather'' ''weather'' ''city'',
                      sample_candidate ''search'' ''search'' ''query'']"
  have h1: "nth_opt (js_split ''::'' sample_project) 1 = Some ''https://lab.leapter.test/spec''"
    by code_simp
  have h2: "''https://lab.leapter.test/spec'' \<noteq> []"
    by simp
  have h3: "startsWith ''https://lab.leapter.test/spec'' ''http''"
    by code_simp
  have h4: "(\<lambda>u. Inr (sample_spec ''Weather'')) ''https://lab.leapter.test/spec''
              = (Inr (sample_spec ''Weather'') :: error + jsval)"
    by simp
  have h5: "server_url (sample_spec ''Weather'') = Inr ''https://api.leapter.test''"
    by code_simp
  have h6: "get_prop (sample_spec ''Weather'') ''paths'' = Inr (JObj ?entries)"
    by (simp add: sample_spec_def)
  have h7: "object_entries (JObj ?entries) = Inr ?entries"
    by simp
  have h8: "collect_blueprints (sample_spec ''Weather'') ''https://api.leapter.test'' ?entries []
              = Inr ?candidates"
    by code_simp
  have routed: "spec_route (map_of [(''city'', JStr ''Paris'')] ''action'')
                  (map fst (tool_args [(''city'', JStr ''Paris'')])) ?candidates
                = Some (sample_candidate ''weather'' ''weather'' ''city'')"
    by code_simp
  have third: "nth_opt (js_split ''::'' sample_project) 2 = Some ''https://lab.leapter.test/e''"
    by code_simp
  have args: "tool_args [(''city'', JStr ''Paris'')] = [(''city'', JStr ''Paris'')]"
    by code_simp
  note inst = tool_routing [OF h1 h2 h3 h4 h5 h6 h7 h8, of "''exec1''" "[(''city'', JStr ''Paris'')]",
        THEN conjunct2]
  show ?thesis
    using inst [unfolded routed] third args
    by (simp add: sample_candidate_def sample_request_def)
qed

text \<open>
  The input carries the \<open>action\<close> string \<open>""\<close>, whose sanitized form \<open>leapter_tool\<close> is the
  name of the first candidate; the code treats the empty string as no action, and the
  scoring selects the second candidate.
\<close>

theorem tool_routing_counterexample:
  "map_of [(''action'', JStr []), (''query'', JStr ''x'')] ''action'' = Some (JStr [])
   \<and> sanitizeToolName [] = bp_name (sample_candidate ''leapter_tool'' ''weather'' ''city'')
   \<and> collect_blueprints (sample_spec ''Leapter Tool'') ''https://api.leapter.test''
        [(''/models/weather/runs'', sample_operation ''Leapter Tool'' ''city''),
         (''/models/search/runs'', sample_operation ''Search'' ''query'')] []
      = Inr [sample_candidate ''leapter_tool'' ''weather'' ''city'',
             sample_candidate ''search'' ''search'' ''query'']
   \<and> tool_request (\<lambda>u. Inr (sample_spec ''Leapter Tool'')) ''exec1'' sample_project
        [(''action'', JStr []), (''query'', JStr ''x'')]
      = Inr (sample_candidate ''search'' ''search'' ''query'', Some ''https://lab.leapter.test/e'',
             sample_request ''search'' [(''query'', JStr ''x'')])"
  by code_simp

subsection \<open>Tool arguments\<close>

lemma tool_args_fold:
  "distinct (map fst input) \<Longrightarrow>
   map_of (fold (\<lambda>(key, val) toolArgs.
                   if key \<notin> set SYSTEM_FIELDS then set_prop toolArgs key val else toolArgs)
             input acc) k
     = (case map_of input k of
          Some v \<Rightarrow> if k \<in> set SYSTEM_FIELDS \<or> k = ''__proto__'' then map_of acc k else Some v
        | None \<Rightarrow> map_of acc k)"
proof (induction input arbitrary: acc)
  case Nil
  then show ?case by simp
next
  case (Cons entry input)
  obtain key val where entry: "entry = (key, val)"
    by (cases entry)
  have absent: "map_of input key = None"
    using Cons.prems unfolding entry by (simp add: map_of_eq_None_iff)
  show ?case
    using Cons.prems absent unfolding entry
    by (simp add: Cons.IH set_prop_def update_conv' split: option.splits)
qed

text \<open>
  What the request body holds, for an input item with unique property names: every property
  of the item except the four system fields and the name \<open>__proto__\<close>, with its value.
\<close>

lemma tool_args_frame:
  "distinct (map fst input) \<Longrightarrow>
   map_of (tool_args input) k
     = (if k \<in> set SYSTEM_FIELDS \<or> k = ''__proto__'' then None else map_of input k)"
  by (simp add: tool_args_def tool_args_fold split: option.splits)

text \<open>
  C10. The input item \<open>{"__proto__": "x", "city": "Paris", "sessionId": "s"}\<close> has the
  property \<open>__proto__\<close>, which is not a system field, and the request body is
  \<open>{"city": "Paris"}\<close>: the assignment \<open>toolArgs[key] = value\<close> with that name creates no
  property.
\<close>

theorem tool_args_proto_dropped:
  "''__proto__'' \<notin> set SYSTEM_FIELDS
   \<and> map_of [(''__proto__'', JStr ''x''), (''city'', JStr ''Paris''), (''sessionId'', JStr ''s'')]
        ''__proto__'' = Some (JStr ''x'')
   \<and> tool_request (\<lambda>u. Inr (sample_spec ''Weather'')) ''exec1'' sample_project
        [(''__proto__'', JStr ''x''), (''city'', JStr ''Paris''), (''sessionId'', JStr ''s'')]
      = Inr (sample_candidate ''weather'' ''weather'' ''city'', Some ''https://lab.leapter.test/e'',
             sample_request ''weather'' [(''city'', JStr ''Paris'')])"
  by code_simp

subsection \<open>The typed parameter projection\<close>

lemma unique_names_map_of: "unique_names (JObj kvs) \<Longrightarrow> map_of kvs k = Some v \<Longrightarrow> unique_names v"
  by (auto dest!: map_of_SomeD intro: rev_image_eqI)

lemma unique_names_get_prop_opt: "unique_names v \<Longrightarrow> unique_names (get_prop_opt v k)"
  by (cases v) (auto split: option.splits dest: unique_names_map_of [rotated])

lemma unique_names_get_computed: "unique_names v \<Longrightarrow> get_computed v k = Inr w \<Longrightarrow> unique_names w"
  by (cases v) (auto split: option.splits if_splits dest: unique_names_map_of [rotated])

lemma unique_names_walk: "unique_names v \<Longrightarrow> walk v ks = Inr w \<Longrightarrow> unique_names w"
  by (induction ks arbitrary: v) (auto split: sum.splits dest: unique_names_get_computed)

lemma unique_names_resolveSchema: "unique_names schema \<Longrightarrow> unique_names spec \<Longrightarrow> resolveSchema schema spec = Inr r \<Longrightarrow> unique_names r"
  by (auto simp: resolveSchema_def split: sum.splits if_splits jsval.splits dest: unique_names_walk)

lemma unique_names_property_of:
  "unique_names node \<Longrightarrow> property_of node k = Some p \<Longrightarrow> unique_names p"
  using unique_names_get_prop_opt [of node "''properties''"]
  by (auto simp: property_of_def split: jsval.splits if_splits dest: unique_names_map_of)

lemma required_names_iff:
  "k \<in> set (required_names node)
     \<longleftrightarrow> (case get_prop_opt node ''required'' of JArr xs \<Rightarrow> JStr k \<in> set xs | _ \<Rightarrow> False)"
  by (auto simp: required_names_def split: jsval.splits)

lemma required_includes_names:
  "required_includes (get_prop_opt node ''required'') k = Inr r \<Longrightarrow>
   r = (k \<in> set (required_names node))"
  by (cases "get_prop_opt node ''required''") (auto simp: required_names_iff)

lemma required_or_empty_includes_names:
  "required_or_empty_includes (get_prop_opt node ''required'') k = Inr r \<Longrightarrow>
   r = (k \<in> set (required_names node))"
  by (cases "get_prop_opt node ''required''")
    (auto simp: required_or_empty_includes_def required_names_iff split: if_splits)

lemma build_shape_lookup:
  "build_shape convert is_required props acc = Inr shape \<Longrightarrow> distinct (map fst props) \<Longrightarrow>
   map_of shape k = Some zk \<Longrightarrow>
   (\<exists>p r. map_of props k = Some p \<and> is_required k = Inr r \<and> convert p r = Inr zk)
   \<or> map_of acc k = Some zk"
proof (induction props arbitrary: acc)
  case Nil
  then show ?case by simp
next
  case (Cons entry props)
  obtain key ps where entry: "entry = (key, ps)"
    by (cases entry)
  from Cons.prems(1) obtain r zt
    where r: "is_required key = Inr r" and zt: "convert ps r = Inr zt"
      and rest: "build_shape convert is_required props (set_prop acc key zt) = Inr shape"
    unfolding entry by (auto split: sum.splits)
  have absent: "map_of props key = None"
    using Cons.prems(2) unfolding entry by (simp add: map_of_eq_None_iff)
  from Cons.IH [OF rest _ Cons.prems(3)] Cons.prems(2)
  consider (later) p r' where "map_of props k = Some p" "is_required k = Inr r'"
      "convert p r' = Inr zk"
    | (acc) "map_of (set_prop acc key zt) k = Some zk"
    by auto
  then show ?case
  proof cases
    case later
    then have "k \<noteq> key" using absent by auto
    then show ?thesis using later unfolding entry by simp
  next
    case acc
    then show ?thesis
      using r zt unfolding entry
      by (auto simp: set_prop_def update_conv' split: if_splits)
  qed
qed

lemma set_prop_keys:
  "fst ` set (set_prop obj k v) = (if k = ''__proto__'' then fst ` set obj else insert k (fst ` set obj))"
  by (simp add: set_prop_def dom_update)

lemma build_shape_keys:
  "build_shape convert is_required props acc = Inr shape \<Longrightarrow>
   fst ` set shape = fst ` set acc \<union> (fst ` set props - {''__proto__''})"
proof (induction props arbitrary: acc)
  case Nil
  then show ?case by simp
next
  case (Cons entry props)
  obtain key ps where entry: "entry = (key, ps)"
    by (cases entry)
  from Cons.prems obtain zt
    where "build_shape convert is_required props (set_prop acc key zt) = Inr shape"
    unfolding entry by (auto split: sum.splits)
  from Cons.IH [OF this] show ?case
    unfolding entry by (auto simp: set_prop_keys split: if_splits)
qed

text \<open>A built shape has a field for each property, except one named \<open>__proto__\<close>, and no
  other field; the field is the property converted.\<close>

lemma build_shape_field:
  assumes built: "build_shape convert is_required props [] = Inr shape"
    and distinct: "distinct (map fst props)"
  shows "k \<noteq> ''__proto__'' \<Longrightarrow> map_of props k = Some p \<Longrightarrow>
         \<exists>r zk. is_required k = Inr r \<and> convert p r = Inr zk \<and> map_of shape k = Some zk"
    and "k = ''__proto__'' \<or> map_of props k = None \<Longrightarrow> map_of shape k = None"
proof -
  have keys: "fst ` set shape = fst ` set props - {''__proto__''}"
    using build_shape_keys [OF built] by simp
  {
    assume k: "k \<noteq> ''__proto__''" and p: "map_of props k = Some p"
    then have "k \<in> fst ` set shape"
      unfolding keys by (auto dest!: map_of_SomeD intro: rev_image_eqI)
    then obtain zk where zk: "map_of shape k = Some zk"
      by (cases "map_of shape k") (auto simp: map_of_eq_None_iff)
    from build_shape_lookup [OF built distinct zk] p
    show "\<exists>r zk. is_required k = Inr r \<and> convert p r = Inr zk \<and> map_of shape k = Some zk"
      using zk by auto
  }
  {
    assume "k = ''__proto__'' \<or> map_of props k = None"
    then have "k \<notin> fst ` set shape"
      unfolding keys by (auto simp: map_of_eq_None_iff)
    then show "map_of shape k = None"
      by (simp add: map_of_eq_None_iff)
  }
qed

lemma describe_and_wrap_optional:
  "\<not> is_optional zodType \<Longrightarrow>
   is_optional (describe_and_wrap resolved required zodType) = (\<not> required)"
  by (simp add: describe_and_wrap_def Let_def)

lemma describe_and_wrap_core [simp]:
  "core (describe_and_wrap resolved required zodType) = core zodType"
  by (simp add: describe_and_wrap_def Let_def)

lemma switch_type_core: "switch_type convert resolved ty = Inr zodType \<Longrightarrow> core zodType = zodType"
  unfolding switch_type_def
  by (auto split: if_splits sum.splits option.splits jsval.splits)

lemma switch_type_plain: "switch_type convert resolved ty = Inr zodType \<Longrightarrow> \<not> is_optional zodType"
  unfolding switch_type_def
  by (auto split: if_splits sum.splits option.splits jsval.splits)

text \<open>The branches of the \<open>switch\<close>.\<close>

lemma switch_type_cases:
  assumes "switch_type convert node ty = Inr zodType"
  obtains (fields) props shape where "ty = JStr ''object''"
      "get_prop_opt node ''properties'' = JObj props"
      "build_shape convert (required_includes (get_prop_opt node ''required'')) props [] = Inr shape"
      "zodType = ZObject shape"
    | (no_fields) "ty = JStr ''object''" "\<not> truthy (get_prop_opt node ''properties'')"
      "zodType = ZRecord"
    | (items) item where "ty = JStr ''array''" "truthy (get_prop_opt node ''items'')"
      "convert (get_prop_opt node ''items'') True = Inr item" "zodType = ZArray item"
    | (no_items) "ty = JStr ''array''" "\<not> truthy (get_prop_opt node ''items'')"
      "zodType = ZArray ZString"
    | (scalar) "ty \<noteq> JStr ''object''" "ty \<noteq> JStr ''array''"
      "\<forall>shape. zodType \<noteq> ZObject shape" "\<forall>item. zodType \<noteq> ZArray item"
  using assms unfolding switch_type_def
  by (auto split: if_splits sum.splits option.splits jsval.splits)

lemma openApiToZod_Inr:
  assumes "openApiToZod depth schema spec required = Inr z"
  obtains d node zodType where "depth = Suc d" "resolveSchema schema spec = Inr node"
    "node \<noteq> JUndefined" "node \<noteq> JNull"
    "switch_type (\<lambda>s r. openApiToZod d s spec r) node (get_prop_opt node ''type'') = Inr zodType"
    "z = describe_and_wrap node required zodType"
proof (cases depth)
  case 0
  with assms show ?thesis by simp
next
  case (Suc d)
  with assms obtain node ty zodType where node: "resolveSchema schema spec = Inr node"
    and ty: "get_prop node ''type'' = Inr ty"
    and sw: "switch_type (\<lambda>s r. openApiToZod d s spec r) node ty = Inr zodType"
    and z: "z = describe_and_wrap node required zodType"
    by (auto split: sum.splits)
  from ty have "node \<noteq> JUndefined" "node \<noteq> JNull" "ty = get_prop_opt node ''type''"
    by (cases node; auto)+
  with that [OF Suc node] sw z show ?thesis
    by simp
qed

lemma openApiToZod_optional:
  "openApiToZod depth schema spec required = Inr z \<Longrightarrow> is_optional z = (\<not> required)"
  by (erule openApiToZod_Inr) (auto dest: switch_type_plain simp: describe_and_wrap_optional)

lemma zod_at_ZString: "zod_at ZString (steps @ [FieldStep k]) = None"
proof (cases steps)
  case Nil
  then show ?thesis by simp
next
  case (Cons st rest)
  then show ?thesis by (cases st) simp_all
qed

lemma zod_at_no_fields: "zod_at (ZObject []) (steps @ [FieldStep k]) = None"
proof (cases steps)
  case Nil
  then show ?thesis by simp
next
  case (Cons st rest)
  then show ?thesis by (cases st) simp_all
qed

text \<open>One level of the projection: what a step from the projected type reaches, against the
  node the schema resolves to.\<close>

lemma openApiToZod_field_step:
  assumes "openApiToZod depth schema spec required = Inr z"
    and "unique_names schema" and "unique_names spec"
  shows "\<exists>d node. depth = Suc d \<and> resolveSchema schema spec = Inr node
     \<and> (\<forall>k p. get_prop_opt node ''type'' = JStr ''object'' \<longrightarrow> property_of node k = Some p \<longrightarrow>
           (\<exists>zk. openApiToZod d p spec (k \<in> set (required_names node)) = Inr zk \<and> unique_names p
              \<and> (\<forall>steps. zod_at z (FieldStep k # steps) = zod_at zk steps)))
     \<and> (\<forall>k. get_prop_opt node ''type'' \<noteq> JStr ''object'' \<or> property_of node k = None \<longrightarrow>
           (\<forall>steps. zod_at z (FieldStep k # steps) = None))"
proof -
  from assms(1) obtain d node zodType where depth: "depth = Suc d"
    and node: "resolveSchema schema spec = Inr node"
    and sw: "switch_type (\<lambda>s r. openApiToZod d s spec r) node (get_prop_opt node ''type'')
               = Inr zodType"
    and z: "z = describe_and_wrap node required zodType"
    by (rule openApiToZod_Inr)
  have core: "core z = zodType"
    unfolding z using switch_type_core [OF sw] by simp
  have uniq: "unique_names node"
    using unique_names_resolveSchema [OF assms(2,3) node] .
  from sw have "(\<forall>k p. get_prop_opt node ''type'' = JStr ''object'' \<longrightarrow> property_of node k = Some p \<longrightarrow>
           (\<exists>zk. openApiToZod d p spec (k \<in> set (required_names node)) = Inr zk \<and> unique_names p
              \<and> (\<forall>steps. zod_at z (FieldStep k # steps) = zod_at zk steps)))
     \<and> (\<forall>k. get_prop_opt node ''type'' \<noteq> JStr ''object'' \<or> property_of node k = None \<longrightarrow>
           (\<forall>steps. zod_at z (FieldStep k # steps) = None))"
  proof (cases rule: switch_type_cases)
    case (fields props shape)
    have distinct: "distinct (map fst props)"
      using unique_names_get_prop_opt [OF uniq, of "''properties''"] fields(2) by simp
    note field = build_shape_field [OF fields(3) distinct]
    show ?thesis
    proof (intro conjI allI impI)
      fix k p
      assume "property_of node k = Some p"
      then have k: "k \<noteq> ''__proto__''" and p: "map_of props k = Some p"
        using fields(2) by (auto simp: property_of_def split: if_splits)
      from field(1) [OF k p] obtain r zk
        where r: "required_includes (get_prop_opt node ''required'') k = Inr r"
          and zk: "openApiToZod d p spec r = Inr zk" and at: "map_of shape k = Some zk"
        by blast
      have "unique_names p"
        using unique_names_property_of [OF uniq \<open>property_of node k = Some p\<close>] .
      then show "\<exists>zk. openApiToZod d p spec (k \<in> set (required_names node)) = Inr zk \<and> unique_names p
              \<and> (\<forall>steps. zod_at z (FieldStep k # steps) = zod_at zk steps)"
        using zk at required_includes_names [OF r] core fields(4) by auto
    next
      fix k steps
      assume "get_prop_opt node ''type'' \<noteq> JStr ''object'' \<or> property_of node k = None"
      then have "k = ''__proto__'' \<or> map_of props k = None"
        using fields(1,2) by (auto simp: property_of_def split: if_splits)
      from field(2) [OF this] show "zod_at z (FieldStep k # steps) = None"
        using core fields(4) by simp
    qed
  next
    case no_fields
    then have "property_of node k = None" for k
      by (cases "get_prop_opt node ''properties''") (auto simp: property_of_def)
    then show ?thesis
      using core no_fields by simp
  next
    case (items item)
    then show ?thesis using core by simp
  next
    case no_items
    then show ?thesis using core by simp
  next
    case scalar
    then show ?thesis using core by (cases zodType) auto
  qed
  with depth node show ?thesis
    by blast
qed

lemma openApiToZod_items_step:
  assumes "openApiToZod depth schema spec required = Inr z"
    and "unique_names schema" and "unique_names spec"
  shows "\<exists>d node. depth = Suc d \<and> resolveSchema schema spec = Inr node
     \<and> (get_prop_opt node ''type'' = JStr ''array'' \<and> truthy (get_prop_opt node ''items'') \<longrightarrow>
           (\<exists>item. openApiToZod d (get_prop_opt node ''items'') spec True = Inr item
              \<and> unique_names (get_prop_opt node ''items'')
              \<and> (\<forall>steps. zod_at z (ItemsStep # steps) = zod_at item steps)))
     \<and> (\<not> (get_prop_opt node ''type'' = JStr ''array'' \<and> truthy (get_prop_opt node ''items'')) \<longrightarrow>
           (\<forall>steps k. zod_at z (ItemsStep # steps @ [FieldStep k]) = None))"
proof -
  from assms(1) obtain d node zodType where depth: "depth = Suc d"
    and node: "resolveSchema schema spec = Inr node"
    and sw: "switch_type (\<lambda>s r. openApiToZod d s spec r) node (get_prop_opt node ''type'')
               = Inr zodType"
    and z: "z = describe_and_wrap node required zodType"
    by (rule openApiToZod_Inr)
  have core: "core z = zodType"
    unfolding z using switch_type_core [OF sw] by simp
  have uniq: "unique_names (get_prop_opt node ''items'')"
    using unique_names_resolveSchema [OF assms(2,3) node] by (rule unique_names_get_prop_opt)
  from sw have "(get_prop_opt node ''type'' = JStr ''array'' \<and> truthy (get_prop_opt node ''items'') \<longrightarrow>
           (\<exists>item. openApiToZod d (get_prop_opt node ''items'') spec True = Inr item
              \<and> (\<forall>steps. zod_at z (ItemsStep # steps) = zod_at item steps)))
     \<and> (\<not> (get_prop_opt node ''type'' = JStr ''array'' \<and> truthy (get_prop_opt node ''items'')) \<longrightarrow>
           (\<forall>steps k. zod_at z (ItemsStep # steps @ [FieldStep k]) = None))"
  proof (cases rule: switch_type_cases)
    case (fields props shape)
    then show ?thesis using core by simp
  next
    case no_fields
    then show ?thesis using core by simp
  next
    case (items item)
    then show ?thesis using core by simp
  next
    case no_items
    then show ?thesis using core by (simp add: zod_at_ZString)
  next
    case scalar
    then show ?thesis using core by (cases zodType) auto
  qed
  with depth node uniq show ?thesis
    by blast
qed

text \<open>The fields of the projected type are those of the schema, at every depth, and each is
  required exactly if its immediate parent lists it.\<close>

lemma openApiToZod_fields:
  assumes "unique_names spec"
  shows "openApiToZod depth schema spec required = Inr z \<Longrightarrow> unique_names schema \<Longrightarrow>
         zod_required z steps k = schema_required spec schema steps k"
proof (induction steps arbitrary: depth schema required z)
  case Nil
  obtain d node where "depth = Suc d"
    and node: "resolveSchema schema spec = Inr node"
    and present: "\<forall>k p. get_prop_opt node ''type'' = JStr ''object'' \<longrightarrow> property_of node k = Some p \<longrightarrow>
           (\<exists>zk. openApiToZod d p spec (k \<in> set (required_names node)) = Inr zk \<and> unique_names p
              \<and> (\<forall>steps. zod_at z (FieldStep k # steps) = zod_at zk steps))"
    and absent: "\<forall>k. get_prop_opt node ''type'' \<noteq> JStr ''object'' \<or> property_of node k = None \<longrightarrow>
           (\<forall>steps. zod_at z (FieldStep k # steps) = None)"
    using openApiToZod_field_step [OF Nil.prems assms] by blast
  show ?case
  proof (cases "get_prop_opt node ''type'' = JStr ''object'' \<and> property_of node k \<noteq> None")
    case True
    then obtain p where p: "property_of node k = Some p"
      by auto
    from present p True obtain zk
      where "openApiToZod d p spec (k \<in> set (required_names node)) = Inr zk"
        and "zod_at z (FieldStep k # []) = zod_at zk []"
      by blast
    then show ?thesis
      using True node openApiToZod_optional [of d p spec "k \<in> set (required_names node)" zk]
      by (simp add: zod_required_def schema_required_def)
  next
    case False
    then have "zod_at z (FieldStep k # []) = None"
      using absent by blast
    then show ?thesis
      using False node by (auto simp: zod_required_def schema_required_def)
  qed
next
  case (Cons st steps)
  show ?case
  proof (cases st)
    case (FieldStep k')
    obtain d node where "depth = Suc d"
      and node: "resolveSchema schema spec = Inr node"
    and present: "\<forall>k p. get_prop_opt node ''type'' = JStr ''object'' \<longrightarrow> property_of node k = Some p \<longrightarrow>
           (\<exists>zk. openApiToZod d p spec (k \<in> set (required_names node)) = Inr zk \<and> unique_names p
              \<and> (\<forall>steps. zod_at z (FieldStep k # steps) = zod_at zk steps))"
      and absent: "\<forall>k. get_prop_opt node ''type'' \<noteq> JStr ''object'' \<or> property_of node k = None \<longrightarrow>
           (\<forall>steps. zod_at z (FieldStep k # steps) = None)"
      using openApiToZod_field_step [OF Cons.prems assms] by blast
    show ?thesis
    proof (cases "get_prop_opt node ''type'' = JStr ''object'' \<and> property_of node k' \<noteq> None")
      case True
      then obtain p where p: "property_of node k' = Some p"
        by auto
      from present p True obtain zk
        where zk: "openApiToZod d p spec (k' \<in> set (required_names node)) = Inr zk"
          and uniq: "unique_names p"
          and at: "\<forall>steps. zod_at z (FieldStep k' # steps) = zod_at zk steps"
        by blast
      from Cons.IH [OF zk uniq] show ?thesis
        unfolding FieldStep using True node p at
        by (simp add: zod_required_def schema_required_def)
    next
      case False
      then have "\<forall>steps. zod_at z (FieldStep k' # steps) = None"
        using absent by blast
      then show ?thesis
        unfolding FieldStep using False node
        by (auto simp: zod_required_def schema_required_def)
    qed
  next
    case ItemsStep
    obtain d node where "depth = Suc d"
      and node: "resolveSchema schema spec = Inr node"
      and present: "get_prop_opt node ''type'' = JStr ''array'' \<and> truthy (get_prop_opt node ''items'') \<longrightarrow>
           (\<exists>item. openApiToZod d (get_prop_opt node ''items'') spec True = Inr item
              \<and> unique_names (get_prop_opt node ''items'')
              \<and> (\<forall>steps. zod_at z (ItemsStep # steps) = zod_at item steps))"
      and absent: "\<not> (get_prop_opt node ''type'' = JStr ''array'' \<and> truthy (get_prop_opt node ''items'')) \<longrightarrow>
           (\<forall>steps k. zod_at z (ItemsStep # steps @ [FieldStep k]) = None)"
      using openApiToZod_items_step [OF Cons.prems assms] by blast
    show ?thesis
    proof (cases "get_prop_opt node ''type'' = JStr ''array'' \<and> truthy (get_prop_opt node ''items'')")
      case True
      from present True obtain item
        where item: "openApiToZod d (get_prop_opt node ''items'') spec True = Inr item"
          and uniq: "unique_names (get_prop_opt node ''items'')"
          and at: "\<forall>steps. zod_at z (ItemsStep # steps) = zod_at item steps"
        by blast
      from Cons.IH [OF item uniq] show ?thesis
        unfolding ItemsStep using True node at
        by (simp add: zod_required_def schema_required_def)
    next
      case False
      from absent False show ?thesis
        unfolding ItemsStep using False node
        by (auto simp: zod_required_def schema_required_def)
    qed
  qed
qed

text \<open>The same for the fields that \<open>buildZodSchemaFromOperation\<close> returns.\<close>

lemma buildZodSchemaFromOperation_fields:
  assumes "unique_names spec" and "unique_names operation"
    and built: "buildZodSchemaFromOperation depth operation spec = Inr shape"
  shows "zod_required (ZObject shape) steps k = operation_required spec operation steps k"
proof (cases "shape = []")
  case True
  have "operation_required spec operation steps k = None"
  proof (cases "truthy (body_schema operation)")
    case False
    then show ?thesis by (simp add: operation_required_def)
  next
    case truthy: True
    show ?thesis
    proof (cases "resolveSchema (body_schema operation) spec")
      case (Inl e)
      then show ?thesis by (simp add: operation_required_def)
    next
      case (Inr base_node)
      have "property_of base_node k' = None" for k'
      proof (cases "get_prop_opt base_node ''properties''")
        case (JObj props)
        then have "get_prop base_node ''properties'' = Inr (JObj props)"
          by (cases base_node) auto
        with built truthy Inr True
        have "build_shape (\<lambda>s r. openApiToZod depth s spec r)
                (required_or_empty_includes (get_prop_opt base_node ''required'')) props [] = Inr []"
          by (simp add: buildZodSchemaFromOperation_def)
        from build_shape_keys [OF this] have "fst ` set props \<subseteq> {''__proto__''}"
          by auto
        then show ?thesis
          using JObj by (auto simp: property_of_def map_of_eq_None_iff)
      qed (simp_all add: property_of_def)
      then show ?thesis
        using Inr by (simp add: operation_required_def split: list.splits step.splits)
    qed
  qed
  then show ?thesis
    using True by (simp add: zod_required_def zod_at_no_fields)
next
  case False
  with built obtain base_node props
    where truthy: "truthy (body_schema operation)"
      and base_node: "resolveSchema (body_schema operation) spec = Inr base_node"
      and props: "get_prop base_node ''properties'' = Inr (JObj props)"
      and shape: "build_shape (\<lambda>s r. openApiToZod depth s spec r)
                    (required_or_empty_includes (get_prop_opt base_node ''required'')) props []
                  = Inr shape"
    unfolding buildZodSchemaFromOperation_def
    by (auto split: if_splits sum.splits jsval.splits)
  have props_opt: "get_prop_opt base_node ''properties'' = JObj props"
    using props by (cases base_node) auto
  have "unique_names (body_schema operation)"
    unfolding body_schema_def using assms(2) by (intro unique_names_get_prop_opt)
  then have uniq: "unique_names base_node"
    using unique_names_resolveSchema assms(1) base_node by blast
  then have "unique_names (JObj props)"
    using unique_names_get_prop_opt [of base_node "''properties''"] props_opt by simp
  then have distinct: "distinct (map fst props)"
    by simp
  note field = build_shape_field [OF shape distinct]
  have property: "property_of base_node k' = (if k' = ''__proto__'' then None else map_of props k')"
    for k'
    using props_opt by (simp add: property_of_def)
  have absent: "zod_at (ZObject shape) (FieldStep k' # rest) = None"
    if "property_of base_node k' = None" for k' rest
  proof -
    from that have "k' = ''__proto__'' \<or> map_of props k' = None"
      unfolding property by (simp split: if_splits)
    from field(2) [OF this] show ?thesis
      by simp
  qed
  have present: "\<exists>zk. openApiToZod depth p spec (k' \<in> set (required_names base_node)) = Inr zk
           \<and> (\<forall>rest. zod_at (ZObject shape) (FieldStep k' # rest) = zod_at zk rest)"
    if "property_of base_node k' = Some p" for k' p
  proof -
    from that have "k' \<noteq> ''__proto__''" "map_of props k' = Some p"
      unfolding property by (simp_all split: if_splits)
    from field(1) [OF this] obtain r zk
      where "required_or_empty_includes (get_prop_opt base_node ''required'') k' = Inr r"
        and "openApiToZod depth p spec r = Inr zk" and "map_of shape k' = Some zk"
      by blast
    then show ?thesis
      using required_or_empty_includes_names by fastforce
  qed
  show ?thesis
  proof (cases steps)
    case Nil
    show ?thesis
    proof (cases "property_of base_node k")
      case None
      then show ?thesis
        using absent [OF None, of "[]"] truthy base_node Nil
        by (simp add: zod_required_def operation_required_def)
    next
      case (Some p)
      from present [OF Some] obtain zk
        where "openApiToZod depth p spec (k \<in> set (required_names base_node)) = Inr zk"
          and "zod_at (ZObject shape) (FieldStep k # []) = zod_at zk []"
        by blast
      then show ?thesis
        using openApiToZod_optional [of depth p spec "k \<in> set (required_names base_node)" zk]
          truthy base_node Nil Some
        by (simp add: zod_required_def operation_required_def)
    qed
  next
    case (Cons st rest)
    show ?thesis
    proof (cases st)
      case (FieldStep k')
      show ?thesis
      proof (cases "property_of base_node k'")
        case None
        then show ?thesis
          using absent [OF None, of "rest @ [FieldStep k]"] truthy base_node Cons FieldStep
          by (simp add: zod_required_def operation_required_def)
      next
        case (Some p)
        from present [OF Some] obtain zk
          where zk: "openApiToZod depth p spec (k' \<in> set (required_names base_node)) = Inr zk"
            and at: "\<forall>rest. zod_at (ZObject shape) (FieldStep k' # rest) = zod_at zk rest"
          by blast
        have "unique_names p"
          using unique_names_property_of [OF uniq Some] .
        from openApiToZod_fields [OF assms(1) zk this, of rest k] show ?thesis
          using at truthy base_node Cons FieldStep Some
          by (simp add: zod_required_def operation_required_def)
      qed
    next
      case ItemsStep
      then show ?thesis
        using truthy base_node Cons by (simp add: zod_required_def operation_required_def)
    qed
  qed
qed

text \<open>The projection returns on a well-formed schema, and a result does not depend on the
  depth that the engine allows beyond the one it needs.\<close>

lemma build_shape_returns:
  assumes "\<And>k. \<exists>r. is_required k = Inr r"
    and "\<And>p r. p \<in> snd ` set props \<Longrightarrow> \<exists>z. convert p r = Inr z"
  shows "\<exists>shape. build_shape convert is_required props acc = Inr shape"
  using assms(2)
proof (induction props arbitrary: acc)
  case Nil
  then show ?case by simp
next
  case (Cons entry props)
  obtain key ps where entry: "entry = (key, ps)"
    by (cases entry)
  obtain r where r: "is_required key = Inr r"
    using assms(1) by blast
  obtain zt where zt: "convert ps r = Inr zt"
    using Cons.prems [of ps r] unfolding entry by auto
  have "\<exists>shape. build_shape convert is_required props (set_prop acc key zt) = Inr shape"
    by (rule Cons.IH) (use Cons.prems in auto)
  then show ?case
    unfolding entry using r zt by simp
qed

lemma build_shape_deeper:
  assumes "\<And>p r z. convert p r = Inr z \<Longrightarrow> convert' p r = Inr z"
  shows "build_shape convert is_required props acc = Inr shape \<Longrightarrow>
         build_shape convert' is_required props acc = Inr shape"
proof (induction props arbitrary: acc)
  case Nil
  then show ?case by simp
next
  case (Cons entry props)
  obtain key ps where entry: "entry = (key, ps)"
    by (cases entry)
  from Cons.prems obtain r zt
    where r: "is_required key = Inr r" and zt: "convert ps r = Inr zt"
      and rest: "build_shape convert is_required props (set_prop acc key zt) = Inr shape"
    unfolding entry by (auto split: sum.splits)
  from Cons.IH [OF rest] show ?case
    unfolding entry using r assms [OF zt] by simp
qed

lemma switch_type_deeper:
  assumes "switch_type convert node ty = Inr zodType"
    and deeper: "\<And>p r z. convert p r = Inr z \<Longrightarrow> convert' p r = Inr z"
  shows "switch_type convert' node ty = Inr zodType"
  using assms(1)
proof (cases rule: switch_type_cases)
  case (fields props shape)
  then show ?thesis
    using build_shape_deeper [of convert convert', OF deeper fields(3)]
    by (simp add: switch_type_def)
next
  case no_fields
  then show ?thesis by (simp add: switch_type_def)
next
  case (items item)
  then show ?thesis using deeper [OF items(3)] by (simp add: switch_type_def)
next
  case no_items
  then show ?thesis by (simp add: switch_type_def)
next
  case scalar
  with assms(1) show ?thesis
    by (auto simp: switch_type_def split: if_splits)
qed

lemma openApiToZod_deeper:
  "openApiToZod n schema spec required = Inr z \<Longrightarrow> n \<le> d \<Longrightarrow>
   openApiToZod d schema spec required = Inr z"
proof (induction n arbitrary: d schema required z)
  case 0
  then show ?case by simp
next
  case (Suc n)
  from Suc.prems(2) obtain d' where d: "d = Suc d'" and le: "n \<le> d'"
    by (cases d) auto
  from Suc.prems(1) obtain node ty zodType where node: "resolveSchema schema spec = Inr node"
    and ty: "get_prop node ''type'' = Inr ty"
    and sw: "switch_type (\<lambda>s r. openApiToZod n s spec r) node ty = Inr zodType"
    and z: "z = describe_and_wrap node required zodType"
    by (auto split: sum.splits)
  have "switch_type (\<lambda>s r. openApiToZod d' s spec r) node ty = Inr zodType"
    using sw by (rule switch_type_deeper) (rule Suc.IH [OF _ le])
  then show ?case
    unfolding d using node ty z by simp
qed

lemma absent_or_array_enum: "absent_or_array v \<Longrightarrow> \<exists>vs. enum_values v = Inr vs"
  by (cases v) (simp_all add: absent_or_array_def)

lemma absent_or_array_required: "absent_or_array v \<Longrightarrow> \<exists>r. required_includes v k = Inr r"
  by (cases v) (auto simp: absent_or_array_def)

lemma absent_or_array_required_or_empty:
  "absent_or_array v \<Longrightarrow> \<exists>r. required_or_empty_includes v k = Inr r"
  by (cases v) (auto simp: absent_or_array_def required_or_empty_includes_def)

lemma well_formed_returns:
  "well_formed n spec schema \<Longrightarrow> \<exists>z. openApiToZod n schema spec required = Inr z"
proof (induction n arbitrary: schema required)
  case 0
  then show ?case by simp
next
  case (Suc n)
  let ?convert = "\<lambda>s r. openApiToZod n s spec r"
  from Suc.prems obtain node where node: "resolveSchema schema spec = Inr node"
    and defined: "node \<noteq> JUndefined" "node \<noteq> JNull"
    by (auto split: sum.splits)
  let ?ty = "get_prop_opt node ''type''"
  have ty: "get_prop node ''type'' = Inr ?ty"
    using defined by (cases node) auto
  have "\<exists>zodType. switch_type ?convert node ?ty = Inr zodType"
  proof -
    consider (string) "?ty = JStr ''string''"
      | (array) "?ty = JStr ''array''"
      | (object) "?ty = JStr ''object''"
      | (other) "?ty \<noteq> JStr ''string''" "?ty \<noteq> JStr ''array''" "?ty \<noteq> JStr ''object''"
      by blast
    then show ?thesis
    proof cases
      case string
      with Suc.prems node have "absent_or_array (get_prop_opt node ''enum'')"
        by simp
      from absent_or_array_enum [OF this] show ?thesis
        using string by (auto simp: switch_type_def split: option.splits)
    next
      case array
      show ?thesis
      proof (cases "truthy (get_prop_opt node ''items'')")
        case True
        with Suc.prems node array have "well_formed n spec (get_prop_opt node ''items'')"
          by simp
        from Suc.IH [OF this, of True] show ?thesis
          using array True by (auto simp: switch_type_def)
      next
        case False
        then show ?thesis
          using array by (simp add: switch_type_def)
      qed
    next
      case object
      show ?thesis
      proof (cases "get_prop_opt node ''properties''")
        case (JObj props)
        with Suc.prems node object
        have required: "absent_or_array (get_prop_opt node ''required'')"
          and children: "list_all (\<lambda>entry. well_formed n spec (snd entry)) props"
          by simp_all
        have "\<exists>shape. build_shape ?convert (required_includes (get_prop_opt node ''required''))
                        props [] = Inr shape"
        proof (rule build_shape_returns)
          show "\<exists>r. required_includes (get_prop_opt node ''required'') k = Inr r" for k
            using required by (rule absent_or_array_required)
          show "\<exists>z. openApiToZod n p spec r = Inr z" if "p \<in> snd ` set props" for p r
            using children that by (auto simp: list_all_iff intro: Suc.IH)
        qed
        then show ?thesis
          using object JObj by (auto simp: switch_type_def)
      next
        case JUndefined
        then show ?thesis
          using object by (simp add: switch_type_def)
      qed (use Suc.prems node object in simp_all)
    next
      case other
      then show ?thesis
        by (simp add: switch_type_def)
    qed
  qed
  then show ?case
    using node ty by auto
qed

lemma well_formed_operation_returns:
  assumes "well_formed_operation n spec operation"
  shows "\<exists>shape. buildZodSchemaFromOperation n operation spec = Inr shape"
proof (cases "truthy (body_schema operation)")
  case False
  then show ?thesis by (simp add: buildZodSchemaFromOperation_def)
next
  case True
  with assms obtain base_node where base_node: "resolveSchema (body_schema operation) spec = Inr base_node"
    and defined: "base_node \<noteq> JUndefined" "base_node \<noteq> JNull"
    by (auto simp: well_formed_operation_def split: sum.splits)
  have props: "get_prop base_node ''properties'' = Inr (get_prop_opt base_node ''properties'')"
    using defined by (cases base_node) auto
  show ?thesis
  proof (cases "get_prop_opt base_node ''properties''")
    case (JObj ps)
    with assms True base_node
    have required: "absent_or_array (get_prop_opt base_node ''required'')"
      and children: "list_all (\<lambda>entry. well_formed n spec (snd entry)) ps"
      by (simp_all add: well_formed_operation_def)
    have "\<exists>shape. build_shape (\<lambda>s r. openApiToZod n s spec r)
                    (required_or_empty_includes (get_prop_opt base_node ''required'')) ps []
                  = Inr shape"
    proof (rule build_shape_returns)
      show "\<exists>r. required_or_empty_includes (get_prop_opt base_node ''required'') k = Inr r" for k
        using required by (rule absent_or_array_required_or_empty)
      show "\<exists>z. openApiToZod n p spec r = Inr z" if "p \<in> snd ` set ps" for p r
        using children that by (auto simp: list_all_iff intro: well_formed_returns)
    qed
    then show ?thesis
      using True base_node props JObj by (auto simp: buildZodSchemaFromOperation_def)
  next
    case JUndefined
    then show ?thesis
      using True base_node props by (simp add: buildZodSchemaFromOperation_def)
  qed (use assms True base_node in \<open>simp_all add: well_formed_operation_def\<close>)
qed

lemma buildZodSchemaFromOperation_deeper:
  assumes "buildZodSchemaFromOperation n operation spec = Inr shape" and "n \<le> d"
  shows "buildZodSchemaFromOperation d operation spec = Inr shape"
proof -
  have deeper: "build_shape (\<lambda>s r. openApiToZod n s spec r) is_required props [] = Inr shape \<Longrightarrow>
        build_shape (\<lambda>s r. openApiToZod d s spec r) is_required props [] = Inr shape"
    for is_required props
    by (rule build_shape_deeper) (rule openApiToZod_deeper [OF _ assms(2)])
  from assms(1) show ?thesis
    unfolding buildZodSchemaFromOperation_def
    by (auto split: if_splits sum.splits jsval.splits intro: deeper)
qed

text \<open>
  C6. The projection returns on every well-formed schema of fewer than \<open>n\<close> levels, the same
  type at every depth of recursion from \<open>n\<close> on. Whatever type it returns, on any schema, is
  optional exactly if \<open>required\<close> is false, and has the fields of the schema and no other,
  at every nesting depth (through the fields of objects and the items of arrays, across
  \<open>$ref\<close>s): under every path a field \<open>k\<close> exists in the type exactly if the schema node
  reached by the path is an object with a property \<open>k\<close>, and it is then required exactly if
  \<open>k\<close> is in the \<open>required\<close> list of that node, its immediate parent, and optional
  otherwise. The same holds for the fields that \<open>buildZodSchemaFromOperation\<close> returns, with
  the resolved request schema as the parent of the top-level fields. A property named
  \<open>__proto__\<close> is no field on either side.
\<close>

theorem required_at_every_depth:
  assumes "unique_names spec"
  shows "(well_formed n spec schema \<longrightarrow>
            (\<exists>z. \<forall>depth\<ge>n. openApiToZod depth schema spec required = Inr z))
       \<and> (unique_names schema \<and> openApiToZod depth schema spec required = Inr z \<longrightarrow>
            (is_optional z \<longleftrightarrow> \<not> required)
            \<and> (\<forall>steps k. zod_required z steps k = schema_required spec schema steps k))
       \<and> (well_formed_operation n spec operation \<longrightarrow>
            (\<exists>shape. \<forall>depth\<ge>n. buildZodSchemaFromOperation depth operation spec = Inr shape))
       \<and> (unique_names operation \<and> buildZodSchemaFromOperation depth operation spec = Inr shape \<longrightarrow>
            (\<forall>steps k. zod_required (ZObject shape) steps k
                          = operation_required spec operation steps k))"
proof (intro conjI impI allI)
  assume "well_formed n spec schema"
  then obtain z where "openApiToZod n schema spec required = Inr z"
    using well_formed_returns by blast
  then show "\<exists>z. \<forall>depth\<ge>n. openApiToZod depth schema spec required = Inr z"
    using openApiToZod_deeper by blast
next
  assume "unique_names schema \<and> openApiToZod depth schema spec required = Inr z"
  then show "is_optional z \<longleftrightarrow> \<not> required"
    using openApiToZod_optional by blast
next
  fix steps k
  assume "unique_names schema \<and> openApiToZod depth schema spec required = Inr z"
  then show "zod_required z steps k = schema_required spec schema steps k"
    using openApiToZod_fields [OF assms] by blast
next
  assume "well_formed_operation n spec operation"
  then obtain shape where "buildZodSchemaFromOperation n operation spec = Inr shape"
    using well_formed_operation_returns by blast
  then show "\<exists>shape. \<forall>depth\<ge>n. buildZodSchemaFromOperation depth operation spec = Inr shape"
    using buildZodSchemaFromOperation_deeper by blast
next
  fix steps k
  assume "unique_names operation \<and> buildZodSchemaFromOperation depth operation spec = Inr shape"
  then show "zod_required (ZObject shape) steps k = operation_required spec operation steps k"
    using buildZodSchemaFromOperation_fields [OF assms] by blast
qed

text \<open>
  On the sample request schema: the projection returns the same shape at the depths 3 and 7,
  and the flags of its fields, three levels down and inside the items of the array, are
  those of the \<open>required\<close> list of each field's own parent.
\<close>

theorem required_at_every_depth_witness:
  "buildZodSchemaFromOperation 3 sample_nested_operation sample_nested_spec
     = Inr sample_nested_shape
   \<and> buildZodSchemaFromOperation 7 sample_nested_operation sample_nested_spec
     = Inr sample_nested_shape
   \<and> operation_required sample_nested_spec sample_nested_operation [] ''name'' = Some True
   \<and> operation_required sample_nested_spec sample_nested_operation [] ''address'' = Some False
   \<and> operation_required sample_nested_spec sample_nested_operation
        [FieldStep ''address''] ''street'' = Some True
   \<and> operation_required sample_nested_spec sample_nested_operation
        [FieldStep ''address''] ''name'' = Some False
   \<and> operation_required sample_nested_spec sample_nested_operation
        [FieldStep ''address'', FieldStep ''geo''] ''lat'' = Some True
   \<and> operation_required sample_nested_spec sample_nested_operation
        [FieldStep ''address'', FieldStep ''geo''] ''lon'' = Some False
   \<and> operation_required sample_nested_spec sample_nested_operation
        [FieldStep ''stops'', ItemsStep] ''label'' = Some True
   \<and> operation_required sample_nested_spec sample_nested_operation
        [FieldStep ''stops'', ItemsStep] ''note'' = Some False
   \<and> operation_required sample_nested_spec sample_nested_operation
        [FieldStep ''address''] ''lat'' = None"
proof -
  have uniq_spec: "unique_names sample_nested_spec"
    by (simp add: sample_nested_spec_def)
  have uniq_op: "unique_names sample_nested_operation"
    by (simp add: sample_nested_operation_def)
  have accepted: "well_formed_operation 3 sample_nested_spec sample_nested_operation"
    by code_simp
  have at_3: "buildZodSchemaFromOperation 3 sample_nested_operation sample_nested_spec
                = Inr sample_nested_shape"
    by code_simp
  note inst = required_at_every_depth [OF uniq_spec]
  from inst [THEN conjunct2, THEN conjunct2, THEN conjunct1, rule_format, OF accepted]
  obtain shape where every:
    "\<forall>depth\<ge>3. buildZodSchemaFromOperation depth sample_nested_operation sample_nested_spec
                   = Inr shape"
    by blast
  then have shape: "shape = sample_nested_shape"
    using at_3 by auto
  note fields = inst [THEN conjunct2, THEN conjunct2, THEN conjunct2, rule_format,
      OF conjI [OF uniq_op at_3], symmetric]
  have "operation_required sample_nested_spec sample_nested_operation [] ''name'' = Some True"
    unfolding fields by code_simp
  moreover
  have "operation_required sample_nested_spec sample_nested_operation [] ''address'' = Some False"
    unfolding fields by code_simp
  moreover
  have "operation_required sample_nested_spec sample_nested_operation
        [FieldStep ''address''] ''street'' = Some True"
    unfolding fields by code_simp
  moreover
  have "operation_required sample_nested_spec sample_nested_operation
        [FieldStep ''address''] ''name'' = Some False"
    unfolding fields by code_simp
  moreover
  have "operation_required sample_nested_spec sample_nested_operation
        [FieldStep ''address'', FieldStep ''geo''] ''lat'' = Some True"
    unfolding fields by code_simp
  moreover
  have "operation_required sample_nested_spec sample_nested_operation
        [FieldStep ''address'', FieldStep ''geo''] ''lon'' = Some False"
    unfolding fields by code_simp
  moreover
  have "operation_required sample_nested_spec sample_nested_operation
        [FieldStep ''stops'', ItemsStep] ''label'' = Some True"
    unfolding fields by code_simp
  moreover
  have "operation_required sample_nested_spec sample_nested_operation
        [FieldStep ''stops'', ItemsStep] ''note'' = Some False"
    unfolding fields by code_simp
  moreover
  have "operation_required sample_nested_spec sample_nested_operation
        [FieldStep ''address''] ''lat'' = None"
    unfolding fields by code_simp
  ultimately show ?thesis
    using every [unfolded shape, rule_format, of 3] every [unfolded shape, rule_format, of 7]
    by simp
qed

end
